theory Spec2Isabelle
  imports Complex_Main "HOL-Library.AList"
begin

section \<open>The in-memory room registry (RoomManager.ts)\<close>

text \<open>
  The registry is the class \<open>InMemoryRoomManager\<close>: a JavaScript \<open>Map\<close> from room
  identifiers to \<open>Room\<close> objects, each of which holds a \<open>Map\<close> from player identifiers to
  \<open>PlayerInfo\<close> objects. A JavaScript \<open>Map\<close> iterates in insertion order, \<open>set\<close> on a key
  that is present replaces the value where it stands, \<open>set\<close> on a new key appends, and
  \<open>delete\<close> removes the entry and tells whether there was one. An association list with
  these operations is that \<open>Map\<close>; the order matters because the successor of a leaving
  owner and the result of \<open>getRoomByUserId\<close> are read off the iteration order.

  Player identifiers and the capacity \<open>maxPlayers\<close> are \<open>number\<close>s in the source, and the
  source checks neither: they are values of the type \<open>number\<close> below, \<open>NaN\<close> and fractions
  included. \<open>UserInfo\<close> and the payload of \<open>RoomState\<close> are declared outside this file and
  never inspected, so they are type parameters. The logger is an output channel without
  influence on the registry and is left out.
\<close>

subsection \<open>JavaScript numbers\<close>

text \<open>
  A \<open>number\<close> is \<open>NaN\<close>, an infinity, or a finite value; the finite doubles are rational
  numbers. The two zeros are one value here: neither \<open>===\<close>, nor \<open>>=\<close>, nor the key equality
  of \<open>Map\<close> tells them apart, and a \<open>Map\<close> stores the key \<open>-0\<close> as \<open>+0\<close>.

  The key equality of \<open>Map\<close> (SameValueZero) holds \<open>NaN\<close> equal to itself, so it is the
  equality of this type. The operator \<open>===\<close> does not: \<open>NaN === NaN\<close> is false. A comparison
  with \<open>NaN\<close> on either side is false.
\<close>

datatype number = NaN | NegInfinity | Finite rat | Infinity

definition strictEq :: "number \<Rightarrow> number \<Rightarrow> bool" where
  "strictEq a b = (a \<noteq> NaN \<and> a = b)"

text \<open>\<open>a >= b\<close>\<close>

fun numGe :: "number \<Rightarrow> number \<Rightarrow> bool" where
  "numGe NaN b = False"
| "numGe a NaN = False"
| "numGe Infinity b = True"
| "numGe a NegInfinity = True"
| "numGe NegInfinity b = False"
| "numGe a Infinity = False"
| "numGe (Finite p) (Finite q) = (q \<le> p)"

text \<open>\<open>a <= b\<close>\<close>

definition numLe :: "number \<Rightarrow> number \<Rightarrow> bool" where
  "numLe a b = numGe b a"

text \<open>The \<open>size\<close> of a collection, as the number it is.\<close>

definition count_number :: "nat \<Rightarrow> number" where
  "count_number n = Finite (of_nat n)"

subsection \<open>The JavaScript Map\<close>

type_synonym ('k, 'v) jsmap = "('k \<times> 'v) list"

definition map_has :: "'k \<Rightarrow> ('k, 'v) jsmap \<Rightarrow> bool" where
  "map_has k m = (k \<in> set (map fst m))"

definition map_get :: "'k \<Rightarrow> ('k, 'v) jsmap \<Rightarrow> 'v option" where
  "map_get k m = map_of m k"

definition map_set :: "'k \<Rightarrow> 'v \<Rightarrow> ('k, 'v) jsmap \<Rightarrow> ('k, 'v) jsmap" where
  "map_set k v m = AList.update k v m"

text \<open>\<open>delete\<close> returns whether an entry was removed, and the map without it.\<close>

definition map_delete :: "'k \<Rightarrow> ('k, 'v) jsmap \<Rightarrow> bool \<times> ('k, 'v) jsmap" where
  "map_delete k m = (map_has k m, AList.delete k m)"

definition map_size :: "('k, 'v) jsmap \<Rightarrow> nat" where
  "map_size m = length m"

definition map_keys :: "('k, 'v) jsmap \<Rightarrow> 'k list" where
  "map_keys m = map fst m"

definition map_values :: "('k, 'v) jsmap \<Rightarrow> 'v list" where
  "map_values m = map snd m"

text \<open>The keys of a \<open>Map\<close> are pairwise different.\<close>

definition map_ok :: "('k, 'v) jsmap \<Rightarrow> bool" where
  "map_ok m = distinct (map fst m)"

subsection \<open>Data model\<close>

record 'u PlayerInfo =
  user :: 'u
  connectionId :: string
  isReady :: bool

text \<open>\<open>RoomState\<close> is a tagged object; the registry builds \<open>{ state: 'SelectChart' }\<close> and
  otherwise stores what it is given.\<close>

datatype 'p RoomState = RoomState string "'p option"

record ('u, 'p) Room =
  room_id :: string
  name :: string
  ownerId :: number
  players :: "(number, 'u PlayerInfo) jsmap"
  maxPlayers :: number
  password :: "string option"
  state :: "'p RoomState"
  locked :: bool
  cycle :: bool
  live :: bool
  createdAt :: int

record 'u CreateRoomOptions =
  opt_id :: string
  opt_name :: string
  opt_ownerId :: number
  opt_ownerInfo :: 'u
  opt_connectionId :: string
  opt_maxPlayers :: "number option"
  opt_password :: "string option"

type_synonym ('u, 'p) rooms = "(string, ('u, 'p) Room) jsmap"

datatype error = RoomAlreadyExists string

subsection \<open>Operations\<close>

text \<open>
  Every operation takes the \<open>rooms\<close> map and returns its result with the map afterwards.
  A \<open>Room\<close> is an object the map refers to: assigning to a field of the room found under
  \<open>roomId\<close> is storing the changed room under \<open>roomId\<close>, which is present, so the entry
  keeps its place. \<open>createRoom\<close> reads the clock for \<open>createdAt\<close>; the value read is its
  first argument. An exception leaves the map as it is at the throw.
\<close>

definition createRoom ::
  "int \<Rightarrow> 'u CreateRoomOptions \<Rightarrow> ('u, 'p) rooms \<Rightarrow> (error + ('u, 'p) Room) \<times> ('u, 'p) rooms" where
  "createRoom now options rooms =
     (let maxPlayers' = (case opt_maxPlayers options of None \<Rightarrow> Finite 8 | Some n \<Rightarrow> n) in
      if map_has (opt_id options) rooms
      then (Inl (RoomAlreadyExists (opt_id options)), rooms)
      else
        let players' = map_set (opt_ownerId options)
                         \<lparr>user = opt_ownerInfo options,
                          connectionId = opt_connectionId options,
                          isReady = False\<rparr> [];
            room = \<lparr>room_id = opt_id options,
                    name = opt_name options,
                    ownerId = opt_ownerId options,
                    players = players',
                    maxPlayers = maxPlayers',
                    password = opt_password options,
                    state = RoomState ''SelectChart'' None,
                    locked = False,
                    cycle = False,
                    live = True,
                    createdAt = now\<rparr>
        in (Inr room, map_set (opt_id options) room rooms))"

definition getRoom :: "string \<Rightarrow> ('u, 'p) rooms \<Rightarrow> ('u, 'p) Room option" where
  "getRoom i rooms = map_get i rooms"

definition deleteRoom :: "string \<Rightarrow> ('u, 'p) rooms \<Rightarrow> bool \<times> ('u, 'p) rooms" where
  "deleteRoom i rooms = map_delete i rooms"

definition listRooms :: "('u, 'p) rooms \<Rightarrow> ('u, 'p) Room list" where
  "listRooms rooms = map_values rooms"

definition count :: "('u, 'p) rooms \<Rightarrow> nat" where
  "count rooms = map_size rooms"

definition addPlayerToRoom ::
  "string \<Rightarrow> number \<Rightarrow> 'u \<Rightarrow> string \<Rightarrow> ('u, 'p) rooms \<Rightarrow> bool \<times> ('u, 'p) rooms" where
  "addPlayerToRoom roomId userId userInfo connId rooms =
     (case map_get roomId rooms of
        None \<Rightarrow> (False, rooms)
      | Some room \<Rightarrow>
          if numGe (count_number (map_size (players room))) (maxPlayers room) then (False, rooms)
          else if locked room then (False, rooms)
          else (True,
                map_set roomId
                  (room\<lparr>players :=
                     map_set userId \<lparr>user = userInfo, connectionId = connId, isReady = False\<rparr>
                       (players room)\<rparr>)
                  rooms))"

definition isRoomOwner :: "string \<Rightarrow> number \<Rightarrow> ('u, 'p) rooms \<Rightarrow> bool" where
  "isRoomOwner roomId userId rooms =
     (case map_get roomId rooms of None \<Rightarrow> False | Some room \<Rightarrow> strictEq (ownerId room) userId)"

definition changeRoomOwner :: "string \<Rightarrow> number \<Rightarrow> ('u, 'p) rooms \<Rightarrow> bool \<times> ('u, 'p) rooms" where
  "changeRoomOwner roomId newOwnerId rooms =
     (case map_get roomId rooms of
        None \<Rightarrow> (False, rooms)
      | Some room \<Rightarrow>
          if \<not> map_has newOwnerId (players room) then (False, rooms)
          else (True, map_set roomId (room\<lparr>ownerId := newOwnerId\<rparr>) rooms))"

text \<open>
  \<open>removePlayerFromRoom\<close> deletes the player from the room's map first, and then calls
  \<open>deleteRoom\<close> or \<open>changeRoomOwner\<close> on the registry that already holds the shrunken
  room. \<open>Array.from(room.players.keys())[0]\<close> is the first key; that branch is entered
  with a non-empty map only, and on an empty array the source would pass \<open>undefined\<close> to
  \<open>changeRoomOwner\<close>, which is a member of no room and changes nothing.
\<close>

definition removePlayerFromRoom :: "string \<Rightarrow> number \<Rightarrow> ('u, 'p) rooms \<Rightarrow> bool \<times> ('u, 'p) rooms" where
  "removePlayerFromRoom roomId userId rooms =
     (case map_get roomId rooms of
        None \<Rightarrow> (False, rooms)
      | Some room0 \<Rightarrow>
          let (removed, players') = map_delete userId (players room0);
              room = room0\<lparr>players := players'\<rparr>;
              rooms1 = map_set roomId room rooms
          in if removed then
               (if map_size (players room) = 0 then (removed, snd (deleteRoom roomId rooms1))
                else if strictEq (ownerId room) userId then
                  (case map_keys (players room) of
                     [] \<Rightarrow> (removed, rooms1)
                   | newOwner # _ \<Rightarrow> (removed, snd (changeRoomOwner roomId newOwner rooms1)))
                else (removed, rooms1))
             else (removed, rooms1))"

text \<open>The loop over \<open>this.rooms.values()\<close> that returns at the first room holding the player.\<close>

fun firstRoomWith :: "number \<Rightarrow> ('u, 'p) Room list \<Rightarrow> ('u, 'p) Room option" where
  "firstRoomWith userId [] = None"
| "firstRoomWith userId (room # rest) =
     (if map_has userId (players room) then Some room else firstRoomWith userId rest)"

definition getRoomByUserId :: "number \<Rightarrow> ('u, 'p) rooms \<Rightarrow> ('u, 'p) Room option" where
  "getRoomByUserId userId rooms = firstRoomWith userId (map_values rooms)"

definition setRoomState :: "string \<Rightarrow> 'p RoomState \<Rightarrow> ('u, 'p) rooms \<Rightarrow> bool \<times> ('u, 'p) rooms" where
  "setRoomState roomId st rooms =
     (case map_get roomId rooms of
        None \<Rightarrow> (False, rooms)
      | Some room \<Rightarrow> (True, map_set roomId (room\<lparr>state := st\<rparr>) rooms))"

definition setRoomLocked :: "string \<Rightarrow> bool \<Rightarrow> ('u, 'p) rooms \<Rightarrow> bool \<times> ('u, 'p) rooms" where
  "setRoomLocked roomId l rooms =
     (case map_get roomId rooms of
        None \<Rightarrow> (False, rooms)
      | Some room \<Rightarrow> (True, map_set roomId (room\<lparr>locked := l\<rparr>) rooms))"

definition setRoomCycle :: "string \<Rightarrow> bool \<Rightarrow> ('u, 'p) rooms \<Rightarrow> bool \<times> ('u, 'p) rooms" where
  "setRoomCycle roomId c rooms =
     (case map_get roomId rooms of
        None \<Rightarrow> (False, rooms)
      | Some room \<Rightarrow> (True, map_set roomId (room\<lparr>cycle := c\<rparr>) rooms))"

definition setPlayerReady :: "string \<Rightarrow> number \<Rightarrow> bool \<Rightarrow> ('u, 'p) rooms \<Rightarrow> bool \<times> ('u, 'p) rooms" where
  "setPlayerReady roomId userId ready rooms =
     (case map_get roomId rooms of
        None \<Rightarrow> (False, rooms)
      | Some room \<Rightarrow>
          (case map_get userId (players room) of
             None \<Rightarrow> (False, rooms)
           | Some player \<Rightarrow>
               (True,
                map_set roomId
                  (room\<lparr>players := map_set userId (player\<lparr>isReady := ready\<rparr>) (players room)\<rparr>)
                  rooms)))"

text \<open>\<open>cleanupEmptyRooms\<close>: one loop collects the identifiers of the rooms without
  players, \<open>forEach\<close> then deletes them one by one.\<close>

fun collectEmpty :: "('u, 'p) rooms \<Rightarrow> string list" where
  "collectEmpty [] = []"
| "collectEmpty ((i, room) # rest) =
     (if map_size (players room) = 0 then i # collectEmpty rest else collectEmpty rest)"

fun deleteEach :: "string list \<Rightarrow> ('u, 'p) rooms \<Rightarrow> ('u, 'p) rooms" where
  "deleteEach [] rooms = rooms"
| "deleteEach (i # is) rooms = deleteEach is (snd (deleteRoom i rooms))"

definition cleanupEmptyRooms :: "('u, 'p) rooms \<Rightarrow> ('u, 'p) rooms" where
  "cleanupEmptyRooms rooms = deleteEach (collectEmpty rooms) rooms"

subsection \<open>Sequences of calls\<close>

text \<open>
  A caller drives the registry through its public methods. \<open>call\<close> performs one of them
  and gives what the caller sees (the returned value, or the exception) with the registry
  afterwards; \<open>run\<close> performs a sequence of calls, carrying on after an exception as a
  caller that catches it does.
\<close>

datatype ('u, 'p) op =
    CreateRoom int "'u CreateRoomOptions"
  | GetRoom string
  | DeleteRoom string
  | ListRooms
  | Count
  | AddPlayerToRoom string number 'u string
  | RemovePlayerFromRoom string number
  | GetRoomByUserId number
  | SetRoomState string "'p RoomState"
  | SetRoomLocked string bool
  | SetRoomCycle string bool
  | SetPlayerReady string number bool
  | IsRoomOwner string number
  | ChangeRoomOwner string number
  | CleanupEmptyRooms

datatype ('u, 'p) outcome =
    Thrown error
  | ReturnedRoom "('u, 'p) Room"
  | ReturnedLookup "('u, 'p) Room option"
  | ReturnedBool bool
  | ReturnedRooms "('u, 'p) Room list"
  | ReturnedNumber nat
  | ReturnedVoid

fun call :: "('u, 'p) op \<Rightarrow> ('u, 'p) rooms \<Rightarrow> ('u, 'p) outcome \<times> ('u, 'p) rooms" where
  "call (CreateRoom now options) rooms =
     (case createRoom now options rooms of
        (Inl e, rooms') \<Rightarrow> (Thrown e, rooms')
      | (Inr room, rooms') \<Rightarrow> (ReturnedRoom room, rooms'))"
| "call (GetRoom i) rooms = (ReturnedLookup (getRoom i rooms), rooms)"
| "call (DeleteRoom i) rooms =
     (case deleteRoom i rooms of (b, rooms') \<Rightarrow> (ReturnedBool b, rooms'))"
| "call ListRooms rooms = (ReturnedRooms (listRooms rooms), rooms)"
| "call Count rooms = (ReturnedNumber (count rooms), rooms)"
| "call (AddPlayerToRoom roomId userId userInfo connId) rooms =
     (case addPlayerToRoom roomId userId userInfo connId rooms of
        (b, rooms') \<Rightarrow> (ReturnedBool b, rooms'))"
| "call (RemovePlayerFromRoom roomId userId) rooms =
     (case removePlayerFromRoom roomId userId rooms of (b, rooms') \<Rightarrow> (ReturnedBool b, rooms'))"
| "call (GetRoomByUserId userId) rooms = (ReturnedLookup (getRoomByUserId userId rooms), rooms)"
| "call (SetRoomState roomId st) rooms =
     (case setRoomState roomId st rooms of (b, rooms') \<Rightarrow> (ReturnedBool b, rooms'))"
| "call (SetRoomLocked roomId l) rooms =
     (case setRoomLocked roomId l rooms of (b, rooms') \<Rightarrow> (ReturnedBool b, rooms'))"
| "call (SetRoomCycle roomId c) rooms =
     (case setRoomCycle roomId c rooms of (b, rooms') \<Rightarrow> (ReturnedBool b, rooms'))"
| "call (SetPlayerReady roomId userId ready) rooms =
     (case setPlayerReady roomId userId ready rooms of (b, rooms') \<Rightarrow> (ReturnedBool b, rooms'))"
| "call (IsRoomOwner roomId userId) rooms = (ReturnedBool (isRoomOwner roomId userId rooms), rooms)"
| "call (ChangeRoomOwner roomId newOwnerId) rooms =
     (case changeRoomOwner roomId newOwnerId rooms of (b, rooms') \<Rightarrow> (ReturnedBool b, rooms'))"
| "call CleanupEmptyRooms rooms = (ReturnedVoid, cleanupEmptyRooms rooms)"

fun run :: "('u, 'p) op list \<Rightarrow> ('u, 'p) rooms \<Rightarrow> ('u, 'p) rooms" where
  "run [] rooms = rooms"
| "run (c # cs) rooms = run cs (snd (call c rooms))"

text \<open>The registry of a freshly constructed manager.\<close>

definition emptyRegistry :: "('u, 'p) rooms" where
  "emptyRegistry = []"

subsection \<open>The invariants of the data model\<close>

definition everyRoom :: "(('u, 'p) Room \<Rightarrow> bool) \<Rightarrow> ('u, 'p) rooms \<Rightarrow> bool" where
  "everyRoom P rooms = list_all P (map_values rooms)"

definition nonEmpty :: "('u, 'p) Room \<Rightarrow> bool" where
  "nonEmpty room = (map_size (players room) \<noteq> 0)"

definition ownerIsMember :: "('u, 'p) Room \<Rightarrow> bool" where
  "ownerIsMember room = map_has (ownerId room) (players room)"

definition withinCapacity :: "('u, 'p) Room \<Rightarrow> bool" where
  "withinCapacity room = numLe (count_number (map_size (players room))) (maxPlayers room)"

text \<open>What the \<open>Map\<close> objects guarantee by themselves: no key twice, in the registry and
  in every room.\<close>

definition wellFormed :: "('u, 'p) rooms \<Rightarrow> bool" where
  "wellFormed rooms = (map_ok rooms \<and> everyRoom (\<lambda>room. map_ok (players room)) rooms)"

text \<open>\<open>m > 0\<close>, and: \<open>m\<close> is an integer or \<open>Infinity\<close>.\<close>

fun positive :: "number \<Rightarrow> bool" where
  "positive (Finite q) = (0 < q)"
| "positive Infinity = True"
| "positive m = False"

fun wholeOrInfinite :: "number \<Rightarrow> bool" where
  "wholeOrInfinite (Finite q) = (q = of_int \<lfloor>q\<rfloor>)"
| "wholeOrInfinite Infinity = True"
| "wholeOrInfinite m = False"

text \<open>A \<open>createRoom\<close> call that is given a positive capacity, or none (the default is 8);
  any other call.\<close>

definition capacityGiven :: "('u, 'p) op \<Rightarrow> bool" where
  "capacityGiven c =
     (case c of
        CreateRoom now options \<Rightarrow>
          (case opt_maxPlayers options of None \<Rightarrow> True | Some m \<Rightarrow> positive m)
      | _ \<Rightarrow> True)"

text \<open>The same, the capacity given being an integer or \<open>Infinity\<close> as well.\<close>

definition wholeCapacityGiven :: "('u, 'p) op \<Rightarrow> bool" where
  "wholeCapacityGiven c =
     (case c of
        CreateRoom now options \<Rightarrow>
          (case opt_maxPlayers options of None \<Rightarrow> True | Some m \<Rightarrow> positive m \<and> wholeOrInfinite m)
      | _ \<Rightarrow> True)"

text \<open>A room within its capacity, the capacity being an integer or \<open>Infinity\<close>.\<close>

definition capacityKept :: "('u, 'p) Room \<Rightarrow> bool" where
  "capacityKept room = (withinCapacity room \<and> wholeOrInfinite (maxPlayers room))"

text \<open>A call that does not remove the player \<open>NaN\<close> from a room.\<close>

definition removesNoNaN :: "('u, 'p) op \<Rightarrow> bool" where
  "removesNoNaN c = (case c of RemovePlayerFromRoom roomId userId \<Rightarrow> userId \<noteq> NaN | _ \<Rightarrow> True)"

subsection \<open>Callers\<close>

text \<open>A caller that lets a list of players join a room one after the other, keeping the
  answers.\<close>

fun addEach ::
  "string \<Rightarrow> (number \<times> 'u \<times> string) list \<Rightarrow> ('u, 'p) rooms \<Rightarrow> bool list \<times> ('u, 'p) rooms" where
  "addEach roomId [] rooms = ([], rooms)"
| "addEach roomId ((userId, userInfo, connId) # joiners) rooms =
     (case addPlayerToRoom roomId userId userInfo connId rooms of
        (b, rooms') \<Rightarrow>
          (case addEach roomId joiners rooms' of (bs, rooms'') \<Rightarrow> (b # bs, rooms'')))"

text \<open>
  The calls that leave the lock of room \<open>roomId\<close> alone, in a given registry: every call
  except \<open>setRoomLocked(roomId, false)\<close> and except a \<open>createRoom\<close> under \<open>roomId\<close> that
  creates a room. (A \<open>createRoom\<close> under \<open>roomId\<close> throws while the room is there, and
  creates an unlocked room once it has been deleted.) \<open>lockKept\<close> says that every call of a
  sequence is such a call in the registry it meets.
\<close>

fun keepsLock :: "string \<Rightarrow> ('u, 'p) op \<Rightarrow> ('u, 'p) rooms \<Rightarrow> bool" where
  "keepsLock roomId (SetRoomLocked r l) rooms = (r \<noteq> roomId \<or> l)"
| "keepsLock roomId (CreateRoom now options) rooms = (opt_id options \<noteq> roomId \<or> map_has roomId rooms)"
| "keepsLock roomId c rooms = True"

fun lockKept :: "string \<Rightarrow> ('u, 'p) op list \<Rightarrow> ('u, 'p) rooms \<Rightarrow> bool" where
  "lockKept roomId [] rooms = True"
| "lockKept roomId (c # cs) rooms =
     (keepsLock roomId c rooms \<and> lockKept roomId cs (snd (call c rooms)))"

definition lockedOrAbsent :: "string \<Rightarrow> ('u, 'p) rooms \<Rightarrow> bool" where
  "lockedOrAbsent roomId rooms =
     (case getRoom roomId rooms of None \<Rightarrow> True | Some room \<Rightarrow> locked room)"

subsection \<open>Concrete sessions\<close>

text \<open>Room \<open>r1\<close> is created by player 1 with capacity 2; player 2 joins, player 3 is turned
  away, and the owner leaves.\<close>

definition scenario :: "(string, unit) op list" where
  "scenario =
     [CreateRoom 1000 \<lparr>opt_id = ''r1'', opt_name = ''lobby'', opt_ownerId = Finite 1,
         opt_ownerInfo = ''ann'', opt_connectionId = ''c1'', opt_maxPlayers = Some (Finite 2),
         opt_password = None\<rparr>,
      AddPlayerToRoom ''r1'' (Finite 2) ''bob'' ''c2'',
      AddPlayerToRoom ''r1'' (Finite 3) ''cy'' ''c3'',
      RemovePlayerFromRoom ''r1'' (Finite 1)]"

text \<open>The session after its first call (the room is new), and after its second (the room
  is full).\<close>

definition freshRoom :: "(string, unit) rooms" where
  "freshRoom = run (take 1 scenario) emptyRegistry"

definition fullRoom :: "(string, unit) rooms" where
  "fullRoom = run (take 2 scenario) emptyRegistry"

text \<open>A registry with a room that has no players. No sequence of calls produces one; it
  stands for a registry whose room was emptied behind the registry's back.\<close>

definition strayRegistry :: "(string, unit) rooms" where
  "strayRegistry =
     (''r0'', \<lparr>room_id = ''r0'', name = ''stray'', ownerId = Finite 9, players = [],
        maxPlayers = Finite 8, password = None, state = RoomState ''SelectChart'' None,
        locked = False, cycle = False, live = True, createdAt = 500\<rparr>) # fullRoom"

text \<open>Two rooms, and player 2 a member of both.\<close>

definition twoRooms :: "(string, unit) rooms" where
  "twoRooms =
     run [CreateRoom 2000 \<lparr>opt_id = ''r2'', opt_name = ''second'', opt_ownerId = Finite 2,
            opt_ownerInfo = ''bob'', opt_connectionId = ''c2'', opt_maxPlayers = None,
            opt_password = Some ''secret''\<rparr>]
       fullRoom"

text \<open>A room whose owner has the identifier \<open>NaN\<close>: players 2 and 3 join, and the owner
  leaves.\<close>

definition nanScenario :: "(string, unit) op list" where
  "nanScenario =
     [CreateRoom 1000 \<lparr>opt_id = ''r1'', opt_name = ''lobby'', opt_ownerId = NaN,
         opt_ownerInfo = ''ann'', opt_connectionId = ''c1'', opt_maxPlayers = None,
         opt_password = None\<rparr>,
      AddPlayerToRoom ''r1'' (Finite 2) ''bob'' ''c2'',
      AddPlayerToRoom ''r1'' (Finite 3) ''cy'' ''c3'',
      RemovePlayerFromRoom ''r1'' NaN]"

text \<open>The room of that session with its three members, before the owner leaves.\<close>

definition nanRoom :: "(string, unit) rooms" where
  "nanRoom = run (take 3 nanScenario) emptyRegistry"

text \<open>A room of players 1, \<open>NaN\<close> and 3, created by player 1.\<close>

definition nanMemberRoom :: "(string, unit) rooms" where
  "nanMemberRoom =
     run [CreateRoom 1000 \<lparr>opt_id = ''r1'', opt_name = ''lobby'', opt_ownerId = Finite 1,
            opt_ownerInfo = ''ann'', opt_connectionId = ''c1'', opt_maxPlayers = None,
            opt_password = None\<rparr>,
          AddPlayerToRoom ''r1'' NaN ''bob'' ''c2'',
          AddPlayerToRoom ''r1'' (Finite 3) ''cy'' ''c3'']
       emptyRegistry"

text \<open>A room of capacity 1.5, and a second player joining it.\<close>

definition fractionalScenario :: "(string, unit) op list" where
  "fractionalScenario =
     [CreateRoom 1000 \<lparr>opt_id = ''r1'', opt_name = ''lobby'', opt_ownerId = Finite 1,
         opt_ownerInfo = ''ann'', opt_connectionId = ''c1'', opt_maxPlayers = Some (Finite (3 / 2)),
         opt_password = None\<rparr>,
      AddPlayerToRoom ''r1'' (Finite 2) ''bob'' ''c2'']"

text \<open>What can follow the locking of room \<open>r1\<close> without any unlocking: its only player
  leaves, so the room is deleted, and player 3 creates a room under the same identifier.\<close>

definition recreation :: "(string, unit) op list" where
  "recreation =
     [RemovePlayerFromRoom ''r1'' (Finite 1),
      CreateRoom 3000 \<lparr>opt_id = ''r1'', opt_name = ''again'', opt_ownerId = Finite 3,
         opt_ownerInfo = ''cy'', opt_connectionId = ''c3'', opt_maxPlayers = None,
         opt_password = None\<rparr>]"

section \<open>Properties\<close>

subsection \<open>Facts about the Map operations\<close>

lemma everyRoom_iff: "everyRoom P rooms \<longleftrightarrow> (\<forall>room \<in> snd ` set rooms. P room)"
  by (auto simp: everyRoom_def map_values_def list_all_iff)

lemma values_update_subset: "snd ` set (AList.update k v m) \<subseteq> insert v (snd ` set m)"
  by (induction m) auto

lemma values_delete_subset: "snd ` set (AList.delete k m) \<subseteq> snd ` set m"
  by (auto simp: AList.delete_eq)

lemma everyRoom_set: "everyRoom P rooms \<Longrightarrow> P room \<Longrightarrow> everyRoom P (map_set k room rooms)"
  using values_update_subset [of k room rooms]
  unfolding everyRoom_iff map_set_def by blast

lemma everyRoom_delete: "everyRoom P rooms \<Longrightarrow> everyRoom P (snd (map_delete k rooms))"
  using values_delete_subset [of k rooms]
  unfolding everyRoom_iff map_delete_def snd_conv by blast

lemma everyRoom_get: "everyRoom P rooms \<Longrightarrow> map_get k rooms = Some room \<Longrightarrow> P room"
  by (force simp: everyRoom_iff map_get_def dest: map_of_SomeD)

lemma map_set_twice: "map_set k v (map_set k v' m) = map_set k v m"
  by (simp add: map_set_def)

lemma map_get_set: "map_get k (map_set k v m) = Some v"
  by (simp add: map_get_def map_set_def update_conv')

lemma map_delete_set: "snd (map_delete k (map_set k v m)) = snd (map_delete k m)"
  by (simp add: map_delete_def map_set_def delete_update_same)

lemma everyRoom_deleteEach: "everyRoom P rooms \<Longrightarrow> everyRoom P (deleteEach ids rooms)"
  by (induction ids arbitrary: rooms) (auto simp: deleteRoom_def everyRoom_delete)

text \<open>Each operation keeps a property of all rooms, provided the rooms it builds or
  changes have it.\<close>

lemma createRoom_every:
  assumes "everyRoom P rooms"
    and "\<And>room. players room = [(opt_ownerId options, \<lparr>user = opt_ownerInfo options,
                          connectionId = opt_connectionId options,
                          isReady = False\<rparr>)] \<Longrightarrow> ownerId room = opt_ownerId options \<Longrightarrow>
          maxPlayers room = (case opt_maxPlayers options of None \<Rightarrow> Finite 8 | Some n \<Rightarrow> n) \<Longrightarrow> P room"
  shows "everyRoom P (snd (createRoom now options rooms))"
  using assms(1) by (auto simp: createRoom_def Let_def map_set_def [of _ _ "[]"] intro!: everyRoom_set assms(2))

lemma deleteRoom_every: "everyRoom P rooms \<Longrightarrow> everyRoom P (snd (deleteRoom i rooms))"
  by (simp add: deleteRoom_def everyRoom_delete)

lemma cleanup_every: "everyRoom P rooms \<Longrightarrow> everyRoom P (cleanupEmptyRooms rooms)"
  by (simp add: cleanupEmptyRooms_def everyRoom_deleteEach)

lemma setRoomState_every:
  assumes "everyRoom P rooms" and "\<And>room. P room \<Longrightarrow> P (room\<lparr>state := st\<rparr>)"
  shows "everyRoom P (snd (setRoomState roomId st rooms))"
  using assms by (auto simp: setRoomState_def everyRoom_set everyRoom_get split: option.splits)

lemma setRoomLocked_every:
  assumes "everyRoom P rooms" and "\<And>room. P room \<Longrightarrow> P (room\<lparr>locked := l\<rparr>)"
  shows "everyRoom P (snd (setRoomLocked roomId l rooms))"
  using assms by (auto simp: setRoomLocked_def everyRoom_set everyRoom_get split: option.splits)

lemma setRoomCycle_every:
  assumes "everyRoom P rooms" and "\<And>room. P room \<Longrightarrow> P (room\<lparr>cycle := c\<rparr>)"
  shows "everyRoom P (snd (setRoomCycle roomId c rooms))"
  using assms by (auto simp: setRoomCycle_def everyRoom_set everyRoom_get split: option.splits)

lemma changeRoomOwner_every:
  assumes "everyRoom P rooms"
    and "\<And>room. P room \<Longrightarrow> map_has newOwnerId (players room) \<Longrightarrow> P (room\<lparr>ownerId := newOwnerId\<rparr>)"
  shows "everyRoom P (snd (changeRoomOwner roomId newOwnerId rooms))"
  using assms by (auto simp: changeRoomOwner_def everyRoom_set everyRoom_get split: option.splits)

lemma setPlayerReady_every:
  assumes "everyRoom P rooms"
    and "\<And>room player. P room \<Longrightarrow> map_get userId (players room) = Some player \<Longrightarrow>
          P (room\<lparr>players := map_set userId (player\<lparr>isReady := ready\<rparr>) (players room)\<rparr>)"
  shows "everyRoom P (snd (setPlayerReady roomId userId ready rooms))"
  using assms by (auto simp: setPlayerReady_def everyRoom_set everyRoom_get split: option.splits)

lemma addPlayerToRoom_every:
  assumes "everyRoom P rooms"
    and "\<And>room. P room \<Longrightarrow> \<not> numGe (count_number (map_size (players room))) (maxPlayers room) \<Longrightarrow>
          \<not> locked room \<Longrightarrow>
          P (room\<lparr>players := map_set userId \<lparr>user = userInfo, connectionId = connId, isReady = False\<rparr> (players room)\<rparr>)"
  shows "everyRoom P (snd (addPlayerToRoom roomId userId userInfo connId rooms))"
  using assms by (auto simp: addPlayerToRoom_def everyRoom_set everyRoom_get split: option.splits)

lemma removePlayerFromRoom_every:
  assumes "everyRoom P rooms"
    and shrink: "\<And>room. P room \<Longrightarrow> map_has userId (players room) \<Longrightarrow>
           \<not> strictEq (ownerId room) userId \<Longrightarrow>
           AList.delete userId (players room) \<noteq> [] \<Longrightarrow>
          P (room\<lparr>players := AList.delete userId (players room)\<rparr>)"
    and handover: "\<And>room k rest. P room \<Longrightarrow> map_has userId (players room) \<Longrightarrow>
           strictEq (ownerId room) userId \<Longrightarrow>
           map fst (AList.delete userId (players room)) = k # rest \<Longrightarrow>
          P (room\<lparr>players := AList.delete userId (players room), ownerId := k\<rparr>)"
  shows "everyRoom P (snd (removePlayerFromRoom roomId userId rooms))"
proof (cases "map_get roomId rooms")
  case None
  then show ?thesis using assms(1) by (simp add: removePlayerFromRoom_def)
next
  case (Some room0)
  have P0: "P room0" using assms(1) Some by (rule everyRoom_get)
  let ?room = "room0\<lparr>players := AList.delete userId (players room0)\<rparr>"
  show ?thesis
  proof (cases "map_has userId (players room0)")
    case False
    then have "AList.delete userId (players room0) = players room0"
      by (simp add: map_has_def)
    then show ?thesis using Some False assms(1) P0
      by (simp add: removePlayerFromRoom_def map_delete_def everyRoom_set)
  next
    case True
    show ?thesis
    proof (cases "AList.delete userId (players room0) = []")
      case e: True
      then show ?thesis using Some True assms(1)
        by (simp add: removePlayerFromRoom_def map_delete_def [of userId] map_size_def deleteRoom_def
            map_delete_set everyRoom_delete)
    next
      case ne: False
      show ?thesis
      proof (cases "strictEq (ownerId room0) userId")
        case False
        then show ?thesis using Some True ne assms(1) shrink [OF P0 True]
          by (simp add: removePlayerFromRoom_def map_delete_def map_size_def everyRoom_set)
      next
        case own: True
        obtain k rest where keys: "map fst (AList.delete userId (players room0)) = k # rest"
          using ne by (cases "AList.delete userId (players room0)") auto
        have has: "map_has k (AList.delete userId (players room0))"
          using keys by (simp add: map_has_def)
        show ?thesis using Some True ne own keys has assms(1) handover [OF P0 True own keys]
          by (simp add: removePlayerFromRoom_def map_delete_def map_size_def map_keys_def
              changeRoomOwner_def map_get_set map_set_twice everyRoom_set)
      qed
    qed
  qed
qed

lemma map_has_set: "map_has k (map_set u v m) \<longleftrightarrow> k = u \<or> map_has k m"
  by (auto simp: map_has_def map_set_def dom_update)

lemma map_has_delete: "map_has k (AList.delete u m) \<longleftrightarrow> k \<noteq> u \<and> map_has k m"
  by (auto simp: map_has_def delete_keys)

lemma map_size_set:
  "map_size (map_set u v m) = (if map_has u m then map_size m else Suc (map_size m))"
  by (induction m) (auto simp: map_size_def map_set_def map_has_def)

lemma map_get_has: "map_get k m = Some v \<Longrightarrow> map_has k m"
  by (auto simp: map_get_def map_has_def dest: map_of_SomeD intro: rev_image_eqI)

lemma map_ok_set: "map_ok m \<Longrightarrow> map_ok (map_set k v m)"
  by (simp add: map_ok_def map_set_def distinct_update)

lemma map_ok_delete: "map_ok m \<Longrightarrow> map_ok (AList.delete k m)"
  by (simp add: map_ok_def distinct_delete)

lemma everyRoom_empty: "everyRoom P emptyRegistry"
  by (simp add: everyRoom_def emptyRegistry_def map_values_def)

lemma snd_call:
  "snd (call (CreateRoom now options) rooms) = snd (createRoom now options rooms)"
  "snd (call (GetRoom i) rooms) = rooms"
  "snd (call (DeleteRoom i) rooms) = snd (deleteRoom i rooms)"
  "snd (call ListRooms rooms) = rooms"
  "snd (call Count rooms) = rooms"
  "snd (call (AddPlayerToRoom roomId userId userInfo connId) rooms) =
     snd (addPlayerToRoom roomId userId userInfo connId rooms)"
  "snd (call (RemovePlayerFromRoom roomId userId) rooms) = snd (removePlayerFromRoom roomId userId rooms)"
  "snd (call (GetRoomByUserId userId) rooms) = rooms"
  "snd (call (SetRoomState roomId st) rooms) = snd (setRoomState roomId st rooms)"
  "snd (call (SetRoomLocked roomId l) rooms) = snd (setRoomLocked roomId l rooms)"
  "snd (call (SetRoomCycle roomId cy) rooms) = snd (setRoomCycle roomId cy rooms)"
  "snd (call (SetPlayerReady roomId userId ready) rooms) = snd (setPlayerReady roomId userId ready rooms)"
  "snd (call (IsRoomOwner roomId userId) rooms) = rooms"
  "snd (call (ChangeRoomOwner roomId newOwnerId) rooms) = snd (changeRoomOwner roomId newOwnerId rooms)"
  "snd (call CleanupEmptyRooms rooms) = cleanupEmptyRooms rooms"
  by (auto split: prod.splits sum.splits)


lemma call_every:
  assumes inv: "everyRoom P rooms"
    and create: "\<And>now options room. c = CreateRoom now options \<Longrightarrow>
          players room = [(opt_ownerId options, \<lparr>user = opt_ownerInfo options,
                          connectionId = opt_connectionId options, isReady = False\<rparr>)] \<Longrightarrow>
          ownerId room = opt_ownerId options \<Longrightarrow>
          maxPlayers room = (case opt_maxPlayers options of None \<Rightarrow> Finite 8 | Some n \<Rightarrow> n) \<Longrightarrow> P room"
    and flags: "\<And>room st l cy. P room \<Longrightarrow>
          P (room\<lparr>state := st\<rparr>) \<and> P (room\<lparr>locked := l\<rparr>) \<and> P (room\<lparr>cycle := cy\<rparr>)"
    and owner: "\<And>room k. P room \<Longrightarrow> map_has k (players room) \<Longrightarrow> P (room\<lparr>ownerId := k\<rparr>)"
    and put: "\<And>room k v. P room \<Longrightarrow>
          map_has k (players room) \<or>
            \<not> numGe (count_number (map_size (players room))) (maxPlayers room) \<Longrightarrow>
          P (room\<lparr>players := map_set k v (players room)\<rparr>)"
    and shrink: "\<And>room r k. c = RemovePlayerFromRoom r k \<Longrightarrow> P room \<Longrightarrow>
          map_has k (players room) \<Longrightarrow> \<not> strictEq (ownerId room) k \<Longrightarrow>
          AList.delete k (players room) \<noteq> [] \<Longrightarrow> P (room\<lparr>players := AList.delete k (players room)\<rparr>)"
    and handover: "\<And>room k k' rest. P room \<Longrightarrow> map_has k (players room) \<Longrightarrow>
          strictEq (ownerId room) k \<Longrightarrow>
          map fst (AList.delete k (players room)) = k' # rest \<Longrightarrow>
          P (room\<lparr>players := AList.delete k (players room), ownerId := k'\<rparr>)"
  shows "everyRoom P (snd (call c rooms))"
proof (cases c)
  case (CreateRoom now options)
  have "everyRoom P (snd (createRoom now options rooms))"
    using inv by (rule createRoom_every) (rule create [OF CreateRoom])
  then show ?thesis using CreateRoom by (simp only: snd_call)
next
  case (DeleteRoom i)
  then show ?thesis using deleteRoom_every [OF inv, of i] by (simp only: snd_call)
next
  case (AddPlayerToRoom roomId userId userInfo connId)
  have "everyRoom P (snd (addPlayerToRoom roomId userId userInfo connId rooms))"
    using inv by (rule addPlayerToRoom_every) (simp add: put)
  then show ?thesis using AddPlayerToRoom by (simp only: snd_call)
next
  case (RemovePlayerFromRoom roomId userId)
  have "everyRoom P (snd (removePlayerFromRoom roomId userId rooms))"
    using inv by (rule removePlayerFromRoom_every) (simp_all add: shrink [OF RemovePlayerFromRoom] handover)
  then show ?thesis using RemovePlayerFromRoom by (simp only: snd_call)
next
  case (SetRoomState roomId st)
  have "everyRoom P (snd (setRoomState roomId st rooms))"
    using inv by (rule setRoomState_every) (simp add: flags)
  then show ?thesis using SetRoomState by (simp only: snd_call)
next
  case (SetRoomLocked roomId l)
  have "everyRoom P (snd (setRoomLocked roomId l rooms))"
    using inv by (rule setRoomLocked_every) (simp add: flags)
  then show ?thesis using SetRoomLocked by (simp only: snd_call)
next
  case (SetRoomCycle roomId cy)
  have "everyRoom P (snd (setRoomCycle roomId cy rooms))"
    using inv by (rule setRoomCycle_every) (simp add: flags)
  then show ?thesis using SetRoomCycle by (simp only: snd_call)
next
  case (SetPlayerReady roomId userId ready)
  have "everyRoom P (snd (setPlayerReady roomId userId ready rooms))"
    using inv by (rule setPlayerReady_every) (simp add: put map_get_has)
  then show ?thesis using SetPlayerReady by (simp only: snd_call)
next
  case (ChangeRoomOwner roomId newOwnerId)
  have "everyRoom P (snd (changeRoomOwner roomId newOwnerId rooms))"
    using inv by (rule changeRoomOwner_every) (simp add: owner)
  then show ?thesis using ChangeRoomOwner by (simp only: snd_call)
next
  case CleanupEmptyRooms
  then show ?thesis using cleanup_every [OF inv] by (simp only: snd_call)
qed (use inv in \<open>simp_all only: snd_call\<close>)

lemma run_invariant:
  assumes step: "\<And>c rooms. c \<in> set cs \<Longrightarrow> everyRoom P rooms \<Longrightarrow> everyRoom P (snd (call c rooms))"
    and "everyRoom P rooms"
  shows "everyRoom P (run cs rooms)"
  using assms by (induction cs arbitrary: rooms) auto

lemma map_has_first: "map fst m = k # rest \<Longrightarrow> map_has k m"
  by (simp add: map_has_def)

text \<open>Invariant 2 survives every call, except the removal of a player \<open>NaN\<close>.\<close>

lemma call_ownerIsMember:
  assumes "everyRoom ownerIsMember rooms" and ok: "removesNoNaN c"
  shows "everyRoom ownerIsMember (snd (call c rooms))"
  using assms(1)
proof (rule call_every)
  fix room :: "('a, 'b) Room" and k k' rest
  assume "map fst (AList.delete k (players room)) = k' # rest"
  then show "ownerIsMember (room\<lparr>players := AList.delete k (players room), ownerId := k'\<rparr>)"
    by (simp add: ownerIsMember_def map_has_first)
next
  fix room :: "('a, 'b) Room" and r k
  assume "c = RemovePlayerFromRoom r k" and "ownerIsMember room" and "\<not> strictEq (ownerId room) k"
  then show "ownerIsMember (room\<lparr>players := AList.delete k (players room)\<rparr>)"
    using ok by (auto simp: ownerIsMember_def map_has_delete strictEq_def removesNoNaN_def)
qed (auto simp: ownerIsMember_def map_has_set map_has_def [of _ "[_]"])

lemma call_nonEmpty:
  "everyRoom nonEmpty rooms \<Longrightarrow> everyRoom nonEmpty (snd (call c rooms))"
  by (erule call_every) (auto simp: nonEmpty_def map_size_set map_size_def [of "_ # _"] map_size_def [of "AList.delete _ _"])

text \<open>Invariant 3, for capacities that are integers or \<open>Infinity\<close>; the capacity of a room
  never changes.\<close>

lemma count_number_delete:
  "numLe (count_number (length m)) c \<Longrightarrow> numLe (count_number (length (AList.delete k m))) c"
  using length_delete_le [of k m]
  by (cases c) (auto simp: numLe_def count_number_def)

lemma count_number_Suc:
  assumes "wholeOrInfinite c" and "\<not> numGe (count_number n) c" and "numLe (count_number n) c"
  shows "numLe (count_number (Suc n)) c"
proof (cases c)
  case (Finite q)
  then have q: "q = of_int \<lfloor>q\<rfloor>" using assms(1) by simp
  have "of_nat n < q" using assms(2) Finite by (simp add: count_number_def)
  then have "of_int (int n) < (of_int \<lfloor>q\<rfloor> :: rat)" using q by simp
  then have "int n < \<lfloor>q\<rfloor>" by (simp only: of_int_less_iff)
  then have "int (Suc n) \<le> \<lfloor>q\<rfloor>" by simp
  then have "(of_int (int (Suc n)) :: rat) \<le> of_int \<lfloor>q\<rfloor>" by (simp only: of_int_le_iff)
  then have "of_nat (Suc n) \<le> q" using q by simp
  then show ?thesis using Finite by (simp add: numLe_def count_number_def)
qed (use assms in \<open>auto simp: numLe_def count_number_def\<close>)

lemma call_capacityKept:
  "everyRoom capacityKept rooms \<Longrightarrow> wholeCapacityGiven c \<Longrightarrow>
     everyRoom capacityKept (snd (call c rooms))"
proof (erule call_every)
  fix now options and room :: "('a, 'b) Room"
  assume "wholeCapacityGiven c" and "c = CreateRoom now options"
    and "players room = [(opt_ownerId options, \<lparr>user = opt_ownerInfo options,
            connectionId = opt_connectionId options, isReady = False\<rparr>)]"
    and m: "maxPlayers room = (case opt_maxPlayers options of None \<Rightarrow> Finite 8 | Some n \<Rightarrow> n)"
  then have "positive (maxPlayers room) \<and> wholeOrInfinite (maxPlayers room)"
    and one: "map_size (players room) = 1"
    by (auto simp: wholeCapacityGiven_def map_size_def split: option.splits)
  moreover from this have "numLe (count_number 1) (maxPlayers room)"
  proof (cases "maxPlayers room")
    case (Finite q)
    then have "0 < q" and "q = of_int \<lfloor>q\<rfloor>"
      using \<open>positive (maxPlayers room) \<and> wholeOrInfinite (maxPlayers room)\<close> by simp_all
    then have "0 < (of_int \<lfloor>q\<rfloor> :: rat)" by simp
    then have "0 < \<lfloor>q\<rfloor>" by (simp only: of_int_0_less_iff)
    then have "1 \<le> \<lfloor>q\<rfloor>" by simp
    then have "(1 :: rat) \<le> of_int \<lfloor>q\<rfloor>" by (simp only: of_int_1_le_iff)
    then show ?thesis using Finite \<open>q = of_int \<lfloor>q\<rfloor>\<close> by (simp add: numLe_def count_number_def)
  qed (auto simp: numLe_def count_number_def)
  ultimately show "capacityKept room"
    by (simp add: capacityKept_def withinCapacity_def)
next
  fix room :: "('a, 'b) Room" and k v
  assume "capacityKept room"
    and "map_has k (players room) \<or> \<not> numGe (count_number (map_size (players room))) (maxPlayers room)"
  then show "capacityKept (room\<lparr>players := map_set k v (players room)\<rparr>)"
    by (auto simp: capacityKept_def withinCapacity_def map_size_set count_number_Suc)
next
  fix room :: "('a, 'b) Room" and k
  assume "capacityKept room"
  then show "capacityKept (room\<lparr>players := AList.delete k (players room)\<rparr>)"
    by (simp add: capacityKept_def withinCapacity_def map_size_def count_number_delete)
next
  fix room :: "('a, 'b) Room" and k k'
  assume "capacityKept room"
  then show "capacityKept (room\<lparr>players := AList.delete k (players room), ownerId := k'\<rparr>)"
    by (simp add: capacityKept_def withinCapacity_def map_size_def count_number_delete)
qed (auto simp: capacityKept_def withinCapacity_def)

lemma call_players_ok:
  "everyRoom (\<lambda>room. map_ok (players room)) rooms \<Longrightarrow> everyRoom (\<lambda>room. map_ok (players room)) (snd (call c rooms))"
  by (erule call_every) (auto simp: map_ok_set map_ok_delete map_ok_def [of "[_]"])

lemma run_ownerIsMember:
  "list_all removesNoNaN cs \<Longrightarrow> everyRoom ownerIsMember (run cs emptyRegistry)"
  by (rule run_invariant) (auto intro: call_ownerIsMember everyRoom_empty simp: list_all_iff)

lemma run_nonEmpty: "everyRoom nonEmpty (run cs emptyRegistry)"
  by (rule run_invariant) (auto intro: call_nonEmpty everyRoom_empty)

lemma run_capacityKept:
  "list_all wholeCapacityGiven cs \<Longrightarrow> everyRoom capacityKept (run cs emptyRegistry)"
  by (rule run_invariant) (auto intro: call_capacityKept everyRoom_empty simp: list_all_iff)

lemma map_ok_deleteEach: "map_ok rooms \<Longrightarrow> map_ok (deleteEach ids rooms)"
  by (induction ids arbitrary: rooms) (auto simp: deleteRoom_def map_delete_def map_ok_delete)

lemma call_map_ok: "map_ok rooms \<Longrightarrow> map_ok (snd (call c rooms))"
  by (cases c)
    (auto simp: snd_call createRoom_def deleteRoom_def addPlayerToRoom_def removePlayerFromRoom_def
      setRoomState_def setRoomLocked_def setRoomCycle_def setPlayerReady_def changeRoomOwner_def
      cleanupEmptyRooms_def map_delete_def Let_def map_ok_set map_ok_delete map_ok_deleteEach
      split: option.splits list.splits)

lemma run_map_ok: "map_ok rooms \<Longrightarrow> map_ok (run cs rooms)"
  by (induction cs arbitrary: rooms) (auto simp: call_map_ok)

lemma run_players_ok: "everyRoom (\<lambda>room. map_ok (players room)) (run cs emptyRegistry)"
  by (rule run_invariant) (auto intro: call_players_ok everyRoom_empty)

lemma run_wellFormed: "wellFormed (run cs emptyRegistry)"
proof -
  have "map_ok (emptyRegistry :: ('a, 'b) rooms)"
    by (simp add: map_ok_def emptyRegistry_def)
  then show ?thesis
    unfolding wellFormed_def using run_players_ok run_map_ok by blast
qed


subsection \<open>Removing the last player\<close>

lemma length_delete_present:
  "distinct (map fst m) \<Longrightarrow> k \<in> fst ` set m \<Longrightarrow> Suc (length (AList.delete k m)) = length m"
  by (induction m) (auto simp: rev_image_eqI)

lemma removePlayerFromRoom_last:
  assumes "map_get roomId rooms = Some room" and "map_keys (players room) = [userId]"
  shows "removePlayerFromRoom roomId userId rooms = (True, AList.delete roomId rooms)"
proof -
  obtain v where ps: "players room = [(userId, v)]"
    using assms(2) by (cases "players room") (auto simp: map_keys_def)
  show ?thesis using assms(1)
    by (simp add: removePlayerFromRoom_def ps map_delete_def map_has_def map_size_def deleteRoom_def
        map_set_def delete_update_same)
qed

lemma removePlayerFromRoom_last_effect:
  assumes "map_ok rooms" and "map_get roomId rooms = Some room" and "map_keys (players room) = [userId]"
  shows "fst (removePlayerFromRoom roomId userId rooms)"
    and "getRoom roomId (snd (removePlayerFromRoom roomId userId rooms)) = None"
    and "count (snd (removePlayerFromRoom roomId userId rooms)) + 1 = count rooms"
proof -
  note eq = removePlayerFromRoom_last [OF assms(2,3)]
  show "fst (removePlayerFromRoom roomId userId rooms)" by (simp add: eq)
  show "getRoom roomId (snd (removePlayerFromRoom roomId userId rooms)) = None"
    by (simp add: eq getRoom_def map_get_def delete_conv')
  have "roomId \<in> fst ` set rooms"
    using map_get_has [OF assms(2)] by (simp add: map_has_def)
  then show "count (snd (removePlayerFromRoom roomId userId rooms)) + 1 = count rooms"
    using assms(1) by (simp add: eq count_def map_size_def map_ok_def length_delete_present)
qed

section \<open>The invariants along sequences of calls\<close>

text \<open>
  Claim C1 (invariant 2) says that after every sequence of calls from the empty registry the
  \<open>ownerId\<close> of every room is a key of that room's \<open>players\<close>. The code does not keep it
  when the owner's identifier is \<open>NaN\<close>. In the session \<open>nanScenario\<close> the room is created
  by player \<open>NaN\<close>, players 2 and 3 join, and the invariant holds; then
  \<open>removePlayerFromRoom('r1', NaN)\<close> deletes the owner's entry, because a \<open>Map\<close> finds the
  key \<open>NaN\<close>, but \<open>room.ownerId === userId\<close> is false, because \<open>NaN === NaN\<close> is, and the
  room is not handed over: it stays in the registry with members 2 and 3 and the owner \<open>NaN\<close>,
  who is not among them.
\<close>

theorem owner_NaN_is_no_member:
  "everyRoom ownerIsMember nanRoom
   \<and> call (RemovePlayerFromRoom ''r1'' NaN) nanRoom = (ReturnedBool True, run nanScenario emptyRegistry)
   \<and> map (\<lambda>(i, room). (i, ownerId room, map_keys (players room))) (run nanScenario emptyRegistry)
       = [(''r1'', NaN, [Finite 2, Finite 3])]
   \<and> \<not> everyRoom ownerIsMember (run nanScenario emptyRegistry)"
  by code_simp

text \<open>
  Claim C2 (invariant 1). After any sequence of calls from the empty registry every room has
  at least one player. In particular, when the registry reached holds a room whose only
  player is \<open>userId\<close>, removing that player returns \<open>true\<close> and deletes the room in the same
  call: \<open>getRoom\<close> is absent afterwards and \<open>count\<close> is one less than before.
\<close>

theorem rooms_are_never_empty:
  "everyRoom nonEmpty (run cs emptyRegistry) \<and>
   (getRoom roomId (run cs emptyRegistry) = Some room \<and> map_keys (players room) = [userId] \<longrightarrow>
      fst (removePlayerFromRoom roomId userId (run cs emptyRegistry)) \<and>
      getRoom roomId (snd (removePlayerFromRoom roomId userId (run cs emptyRegistry))) = None \<and>
      count (snd (removePlayerFromRoom roomId userId (run cs emptyRegistry))) + 1
        = count (run cs emptyRegistry))"
proof -
  let ?rooms = "run cs emptyRegistry"
  have "wellFormed ?rooms"
    by (rule run_wellFormed)
  then have ok: "map_ok ?rooms"
    by (simp add: wellFormed_def)
  have "everyRoom nonEmpty ?rooms"
    by (rule run_nonEmpty)
  then show ?thesis
    using removePlayerFromRoom_last_effect [OF ok, of roomId room userId]
    by (simp add: getRoom_def)
qed

theorem rooms_are_never_empty_witness:
  "getRoom ''r1'' (run scenario emptyRegistry) =
     Some \<lparr>room_id = ''r1'', name = ''lobby'', ownerId = Finite 2,
           players = [(Finite 2, \<lparr>user = ''bob'', connectionId = ''c2'', isReady = False\<rparr>)],
           maxPlayers = Finite 2, password = None, state = RoomState ''SelectChart'' None,
           locked = False, cycle = False, live = True, createdAt = 1000\<rparr>
   \<and> count (run scenario emptyRegistry) = 1
   \<and> everyRoom nonEmpty (run scenario emptyRegistry)
   \<and> fst (removePlayerFromRoom ''r1'' (Finite 2) (run scenario emptyRegistry))
   \<and> getRoom ''r1'' (snd (removePlayerFromRoom ''r1'' (Finite 2) (run scenario emptyRegistry))) = None
   \<and> count (snd (removePlayerFromRoom ''r1'' (Finite 2) (run scenario emptyRegistry))) = 0"
proof -
  let ?room = "\<lparr>room_id = ''r1'', name = ''lobby'', ownerId = Finite 2,
           players = [(Finite 2, \<lparr>user = ''bob'', connectionId = ''c2'', isReady = False\<rparr>)],
           maxPlayers = Finite 2, password = None, state = RoomState ''SelectChart'' (None :: unit option),
           locked = False, cycle = False, live = True, createdAt = 1000\<rparr>"
  have found: "getRoom ''r1'' (run scenario emptyRegistry) = Some ?room"
    by code_simp
  have keys: "map_keys (players ?room) = [Finite 2]"
    by (simp add: map_keys_def)
  have one: "count (run scenario emptyRegistry) = 1"
    by code_simp
  show ?thesis
    using rooms_are_never_empty [of scenario "''r1''" ?room "Finite 2"] found keys one by simp
qed

text \<open>
  Claim C3 (invariant 3) says that every room has at most \<open>maxPlayers\<close> players after any
  sequence of calls from the empty registry in which every \<open>createRoom\<close> is given a positive
  \<open>maxPlayers\<close> or none. It fails for a capacity that is not an integer: a room of capacity
  1.5 admits a second player, since \<open>1 >= 1.5\<close> is false, and then has 2 players.
\<close>

theorem capacity_exceeded_by_fraction:
  "list_all capacityGiven fractionalScenario
   \<and> map (\<lambda>(i, room). (i, map_size (players room), maxPlayers room))
         (run fractionalScenario emptyRegistry) = [(''r1'', 2, Finite (3 / 2))]
   \<and> \<not> everyRoom withinCapacity (run fractionalScenario emptyRegistry)"
  by code_simp

text \<open>
  Claim C3, amended. After any sequence of calls from the empty registry in which every
  \<open>createRoom\<close> is given a positive \<open>maxPlayers\<close> that is an integer or \<open>Infinity\<close>, or none
  (the default is 8), every room has at most \<open>maxPlayers\<close> players.
\<close>

theorem capacity_is_respected:
  "list_all wholeCapacityGiven cs \<Longrightarrow> everyRoom withinCapacity (run cs emptyRegistry)"
proof -
  assume "list_all wholeCapacityGiven cs"
  then have "everyRoom capacityKept (run cs emptyRegistry)"
    by (rule run_capacityKept)
  then show ?thesis
    by (simp add: everyRoom_iff capacityKept_def)
qed

theorem capacity_is_respected_witness:
  "list_all wholeCapacityGiven scenario
   \<and> map (\<lambda>(i, room). (i, map_size (players room), maxPlayers room)) (run scenario emptyRegistry)
       = [(''r1'', 1, Finite 2)]
   \<and> everyRoom withinCapacity (run scenario emptyRegistry)"
proof -
  have given: "list_all wholeCapacityGiven scenario"
    by code_simp
  have "map (\<lambda>(i, room). (i, map_size (players room), maxPlayers room)) (run scenario emptyRegistry)
       = [(''r1'', 1, Finite 2)]"
    by code_simp
  then show ?thesis
    using given capacity_is_respected [OF given] by simp
qed

section \<open>Exceptions and absent rooms or players\<close>

lemma createRoom_throws_iff:
  "(\<exists>e. fst (createRoom now options rooms) = Inl e) \<longleftrightarrow> map_has (opt_id options) rooms"
  by (simp add: createRoom_def Let_def)

lemma createRoom_duplicate:
  "map_has (opt_id options) rooms \<Longrightarrow>
     createRoom now options rooms = (Inl (RoomAlreadyExists (opt_id options)), rooms)"
  by (simp add: createRoom_def)

lemma call_throws:
  "fst (call c rooms) = Thrown e \<longleftrightarrow>
     (\<exists>now options. c = CreateRoom now options \<and> map_has (opt_id options) rooms \<and>
        e = RoomAlreadyExists (opt_id options))"
  by (cases c) (auto simp: createRoom_def Let_def split: prod.splits)

lemma map_get_None: "map_get k m = None \<longleftrightarrow> \<not> map_has k m"
  by (simp add: map_get_def map_has_def map_of_eq_None_iff)

lemma map_delete_absent: "map_get k m = None \<Longrightarrow> map_delete k m = (False, m)"
  by (simp add: map_delete_def map_has_def map_get_def map_of_eq_None_iff)

lemma room_absent:
  assumes "getRoom roomId rooms = None"
  shows "call (GetRoom roomId) rooms = (ReturnedLookup None, rooms)"
    and "call (DeleteRoom roomId) rooms = (ReturnedBool False, rooms)"
    and "call (AddPlayerToRoom roomId userId userInfo connId) rooms = (ReturnedBool False, rooms)"
    and "call (RemovePlayerFromRoom roomId userId) rooms = (ReturnedBool False, rooms)"
    and "call (SetRoomState roomId st) rooms = (ReturnedBool False, rooms)"
    and "call (SetRoomLocked roomId l) rooms = (ReturnedBool False, rooms)"
    and "call (SetRoomCycle roomId cy) rooms = (ReturnedBool False, rooms)"
    and "call (SetPlayerReady roomId userId ready) rooms = (ReturnedBool False, rooms)"
    and "call (IsRoomOwner roomId userId) rooms = (ReturnedBool False, rooms)"
    and "call (ChangeRoomOwner roomId userId) rooms = (ReturnedBool False, rooms)"
  using assms
  by (simp_all add: getRoom_def deleteRoom_def addPlayerToRoom_def removePlayerFromRoom_def
      setRoomState_def setRoomLocked_def setRoomCycle_def setPlayerReady_def isRoomOwner_def
      changeRoomOwner_def map_delete_absent)

lemma map_set_same: "map_get k m = Some v \<Longrightarrow> map_set k v m = m"
  by (simp add: map_get_def map_set_def update_triv)

lemma removePlayerFromRoom_absent_player:
  assumes "map_get roomId rooms = Some room" and "\<not> map_has userId (players room)"
  shows "removePlayerFromRoom roomId userId rooms = (False, rooms)"
proof -
  have "AList.delete userId (players room) = players room"
    using assms(2) by (simp add: map_has_def)
  then show ?thesis using assms
    by (simp add: removePlayerFromRoom_def map_delete_def map_set_same)
qed

lemma player_absent:
  assumes "getRoom roomId rooms = Some room" and "\<not> map_has userId (players room)"
  shows "call (RemovePlayerFromRoom roomId userId) rooms = (ReturnedBool False, rooms)"
    and "call (SetPlayerReady roomId userId ready) rooms = (ReturnedBool False, rooms)"
    and "call (ChangeRoomOwner roomId userId) rooms = (ReturnedBool False, rooms)"
proof -
  have none: "map_get userId (players room) = None"
    using assms(2) by (simp add: map_get_None)
  show "call (RemovePlayerFromRoom roomId userId) rooms = (ReturnedBool False, rooms)"
    using assms by (simp add: getRoom_def removePlayerFromRoom_absent_player)
  show "call (SetPlayerReady roomId userId ready) rooms = (ReturnedBool False, rooms)"
    using assms(1) none by (simp add: getRoom_def setPlayerReady_def)
  show "call (ChangeRoomOwner roomId userId) rooms = (ReturnedBool False, rooms)"
    using assms by (simp add: getRoom_def changeRoomOwner_def)
qed

lemma firstRoomWith_None:
  "firstRoomWith userId rs = None \<longleftrightarrow> (\<forall>room \<in> set rs. \<not> map_has userId (players room))"
  by (induction rs) auto

text \<open>
  Claim C4. \<open>createRoom\<close> throws exactly when the identifier is already a key of the
  registry, and then the registry is what it was: the room under that identifier and
  \<open>count\<close> are unchanged. A call of any method throws only if it is such a \<open>createRoom\<close>.
  Every other method answers a missing room, and a missing player, with \<open>false\<close> or an
  absent result, and leaves the registry as it was.
\<close>

theorem only_createRoom_throws:
  "((\<exists>e. fst (createRoom now options rooms) = Inl e) \<longleftrightarrow> map_has (opt_id options) rooms) \<and>
   (map_has (opt_id options) rooms \<longrightarrow>
      snd (createRoom now options rooms) = rooms \<and>
      getRoom (opt_id options) (snd (createRoom now options rooms)) = getRoom (opt_id options) rooms \<and>
      count (snd (createRoom now options rooms)) = count rooms) \<and>
   (fst (call c rooms) = Thrown e \<longleftrightarrow>
      (\<exists>now' options'. c = CreateRoom now' options' \<and> map_has (opt_id options') rooms \<and>
         e = RoomAlreadyExists (opt_id options'))) \<and>
   (getRoom absentId rooms = None \<longrightarrow>
      call (GetRoom absentId) rooms = (ReturnedLookup None, rooms) \<and>
      call (DeleteRoom absentId) rooms = (ReturnedBool False, rooms) \<and>
      call (AddPlayerToRoom absentId userId userInfo connId) rooms = (ReturnedBool False, rooms) \<and>
      call (RemovePlayerFromRoom absentId userId) rooms = (ReturnedBool False, rooms) \<and>
      call (SetRoomState absentId st) rooms = (ReturnedBool False, rooms) \<and>
      call (SetRoomLocked absentId l) rooms = (ReturnedBool False, rooms) \<and>
      call (SetRoomCycle absentId cy) rooms = (ReturnedBool False, rooms) \<and>
      call (SetPlayerReady absentId userId ready) rooms = (ReturnedBool False, rooms) \<and>
      call (IsRoomOwner absentId userId) rooms = (ReturnedBool False, rooms) \<and>
      call (ChangeRoomOwner absentId userId) rooms = (ReturnedBool False, rooms)) \<and>
   (getRoom roomId rooms = Some room \<and> \<not> map_has userId (players room) \<longrightarrow>
      call (RemovePlayerFromRoom roomId userId) rooms = (ReturnedBool False, rooms) \<and>
      call (SetPlayerReady roomId userId ready) rooms = (ReturnedBool False, rooms) \<and>
      call (ChangeRoomOwner roomId userId) rooms = (ReturnedBool False, rooms)) \<and>
   ((\<forall>r \<in> set (listRooms rooms). \<not> map_has userId (players r)) \<longrightarrow>
      call (GetRoomByUserId userId) rooms = (ReturnedLookup None, rooms))"
proof (intro conjI impI; (elim conjE)?)
  show "(\<exists>e. fst (createRoom now options rooms) = Inl e) \<longleftrightarrow> map_has (opt_id options) rooms"
    by (rule createRoom_throws_iff)
  show "fst (call c rooms) = Thrown e \<longleftrightarrow>
      (\<exists>now' options'. c = CreateRoom now' options' \<and> map_has (opt_id options') rooms \<and>
         e = RoomAlreadyExists (opt_id options'))"
    by (rule call_throws)
next
  assume "\<forall>r \<in> set (listRooms rooms). \<not> map_has userId (players r)"
  then show "call (GetRoomByUserId userId) rooms = (ReturnedLookup None, rooms)"
    by (simp add: getRoomByUserId_def listRooms_def firstRoomWith_None)
qed (simp_all only: createRoom_duplicate room_absent snd_conv, (erule (1) player_absent)+)


theorem only_createRoom_throws_witness:
  "map_has ''r1'' (run scenario emptyRegistry)
   \<and> call (CreateRoom 2000 \<lparr>opt_id = ''r1'', opt_name = ''again'', opt_ownerId = Finite 5,
         opt_ownerInfo = ''eve'', opt_connectionId = ''c5'', opt_maxPlayers = None, opt_password = None\<rparr>)
       (run scenario emptyRegistry)
     = (Thrown (RoomAlreadyExists ''r1''), run scenario emptyRegistry)
   \<and> getRoom ''r9'' (run scenario emptyRegistry) = None
   \<and> call (SetRoomLocked ''r9'' True) (run scenario emptyRegistry)
       = (ReturnedBool False, run scenario emptyRegistry)
   \<and> (\<exists>room. getRoom ''r1'' (run scenario emptyRegistry) = Some room \<and> \<not> map_has (Finite 7) (players room))
   \<and> call (SetPlayerReady ''r1'' (Finite 7) True) (run scenario emptyRegistry)
       = (ReturnedBool False, run scenario emptyRegistry)
   \<and> list_all (\<lambda>r. \<not> map_has (Finite 7) (players r)) (listRooms (run scenario emptyRegistry))
   \<and> call (GetRoomByUserId (Finite 7)) (run scenario emptyRegistry)
       = (ReturnedLookup None, run scenario emptyRegistry)"
proof -
  let ?rooms = "run scenario emptyRegistry"
  let ?options = "\<lparr>opt_id = ''r1'', opt_name = ''again'', opt_ownerId = Finite 5, opt_ownerInfo = ''eve'',
         opt_connectionId = ''c5'', opt_maxPlayers = None, opt_password = None\<rparr>"
  let ?room = "\<lparr>room_id = ''r1'', name = ''lobby'', ownerId = Finite 2,
           players = [(Finite 2, \<lparr>user = ''bob'', connectionId = ''c2'', isReady = False\<rparr>)],
           maxPlayers = Finite 2, password = None, state = RoomState ''SelectChart'' (None :: unit option),
           locked = False, cycle = False, live = True, createdAt = 1000\<rparr>"
  have dup: "map_has (opt_id ?options) ?rooms"
    by code_simp
  have absent: "getRoom ''r9'' ?rooms = None"
    by code_simp
  have found: "getRoom ''r1'' ?rooms = Some ?room"
    by code_simp
  have stranger: "\<not> map_has (Finite 7) (players ?room)"
    by (simp add: map_has_def)
  have nowhere': "list_all (\<lambda>r. \<not> map_has (Finite 7) (players r)) (listRooms ?rooms)"
    by code_simp
  then have nowhere: "\<forall>r \<in> set (listRooms ?rooms). \<not> map_has (Finite 7) (players r)"
    by (simp only: list_all_iff)
  note spec = only_createRoom_throws [where rooms = ?rooms and now = 2000 and options = ?options
      and c = "CreateRoom 2000 ?options" and e = "RoomAlreadyExists ''r1''" and absentId = "''r9''"
      and roomId = "''r1''" and room = ?room and userId = "Finite 7" and l = True and ready = True]
  have "\<exists>now' options'. CreateRoom 2000 ?options = (CreateRoom now' options' :: (string, unit) op) \<and>
          map_has (opt_id options') ?rooms \<and> RoomAlreadyExists ''r1'' = RoomAlreadyExists (opt_id options')"
    using dup by (intro exI [of _ 2000] exI [of _ ?options]) simp
  then have "fst (call (CreateRoom 2000 ?options) ?rooms) = Thrown (RoomAlreadyExists ''r1'')"
    by (rule spec [THEN conjunct2, THEN conjunct2, THEN conjunct1, THEN iffD2])
  moreover have "snd (createRoom 2000 ?options ?rooms) = ?rooms"
    by (rule spec [THEN conjunct2, THEN conjunct1, THEN mp, OF dup, THEN conjunct1])
  ultimately have thrown: "call (CreateRoom 2000 ?options) ?rooms = (Thrown (RoomAlreadyExists ''r1''), ?rooms)"
    by (simp add: prod_eq_iff snd_call del: call.simps)
  note gone = spec [THEN conjunct2, THEN conjunct2, THEN conjunct2, THEN conjunct1, THEN mp, OF absent]
  have a: "call (SetRoomLocked ''r9'' True) ?rooms = (ReturnedBool False, ?rooms)"
    by (rule gone [THEN conjunct2, THEN conjunct2, THEN conjunct2, THEN conjunct2, THEN conjunct2,
          THEN conjunct1])
  have b: "call (SetPlayerReady ''r1'' (Finite 7) True) ?rooms = (ReturnedBool False, ?rooms)"
    by (rule spec [THEN conjunct2, THEN conjunct2, THEN conjunct2, THEN conjunct2, THEN conjunct1,
          THEN mp, OF conjI, OF found stranger, THEN conjunct2, THEN conjunct1])
  have c: "call (GetRoomByUserId (Finite 7)) ?rooms = (ReturnedLookup None, ?rooms)"
    by (rule spec [THEN conjunct2, THEN conjunct2, THEN conjunct2, THEN conjunct2, THEN conjunct2,
          THEN mp, OF nowhere])
  show ?thesis
    using dup thrown absent a found stranger b nowhere' c
    by (intro conjI exI [of _ ?room]) (simp_all del: call.simps)
qed

section \<open>Admission\<close>

lemma map_get_set_if: "map_get k (map_set k' v m) = (if k = k' then Some v else map_get k m)"
  by (simp add: map_get_def map_set_def update_conv')

lemma map_get_delete_if: "map_get k (AList.delete k' m) = (if k = k' then None else map_get k m)"
  by (simp add: map_get_def delete_conv')

lemma map_keys_set:
  "map_keys (map_set k v m) = (if map_has k m then map_keys m else map_keys m @ [k])"
  by (simp add: map_keys_def map_set_def map_has_def update_keys)

lemma addPlayerToRoom_rejects:
  assumes "getRoom roomId rooms = None \<or>
     (\<exists>room. getRoom roomId rooms = Some room \<and>
        (numGe (count_number (map_size (players room))) (maxPlayers room) \<or> locked room))"
  shows "addPlayerToRoom roomId userId userInfo connId rooms = (False, rooms)"
  using assms by (auto simp: addPlayerToRoom_def getRoom_def)

lemma addPlayerToRoom_admits:
  assumes "getRoom roomId rooms = Some room"
    and "\<not> numGe (count_number (map_size (players room))) (maxPlayers room)" and "\<not> locked room"
  shows "addPlayerToRoom roomId userId userInfo connId rooms =
     (True, map_set roomId
        (room\<lparr>players := map_set userId \<lparr>user = userInfo, connectionId = connId, isReady = False\<rparr>
           (players room)\<rparr>) rooms)"
  using assms by (simp add: addPlayerToRoom_def getRoom_def)

lemma addPlayerToRoom_effect:
  fixes rooms :: "('u, 'p) rooms" and userId userInfo connId roomId
  assumes "getRoom roomId rooms = Some room"
    and "\<not> numGe (count_number (map_size (players room))) (maxPlayers room)" and "\<not> locked room"
  defines "rooms' \<equiv> snd (addPlayerToRoom roomId userId userInfo connId rooms)"
  defines "players' \<equiv> map_set userId \<lparr>user = userInfo, connectionId = connId, isReady = False\<rparr>
           (players room)"
  shows "fst (addPlayerToRoom roomId userId userInfo connId rooms)"
    and "getRoom roomId rooms' = Some (room\<lparr>players := players'\<rparr>)"
    and "map_get userId players' = Some \<lparr>user = userInfo, connectionId = connId, isReady = False\<rparr>"
    and "\<forall>k. k \<noteq> userId \<longrightarrow> map_get k players' = map_get k (players room)"
    and "map_keys players' =
           (if map_has userId (players room) then map_keys (players room)
            else map_keys (players room) @ [userId])"
    and "\<forall>i. i \<noteq> roomId \<longrightarrow> getRoom i rooms' = getRoom i rooms"
    and "map_keys rooms' = map_keys rooms"
  using assms(1) map_get_has [of roomId rooms room]
  unfolding rooms'_def players'_def addPlayerToRoom_admits [OF assms(1-3)]
  by (simp_all add: getRoom_def map_get_set_if map_keys_set)

text \<open>Filling a room\<close>

lemma count_number_below:
  "numLe (count_number (n + Suc k)) c \<Longrightarrow> \<not> numGe (count_number n) c"
  by (cases c) (auto simp: numLe_def count_number_def)

lemma addEach_fills:
  assumes "getRoom roomId rooms = Some room" and "\<not> locked room"
    and "distinct (map fst joiners)"
    and "\<forall>j \<in> set joiners. \<not> map_has (fst j) (players room)"
    and "numLe (count_number (map_size (players room) + length joiners)) (maxPlayers room)"
  shows "fst (addEach roomId joiners rooms) = replicate (length joiners) True \<and>
     (\<exists>room'. getRoom roomId (snd (addEach roomId joiners rooms)) = Some room' \<and>
        map_keys (players room') = map_keys (players room) @ map fst joiners \<and>
        maxPlayers room' = maxPlayers room \<and> locked room' = locked room)"
  using assms
proof (induction joiners arbitrary: rooms room)
  case Nil
  then show ?case by simp
next
  case (Cons j joiners)
  obtain userId userInfo connId where j: "j = (userId, userInfo, connId)"
    by (cases j) auto
  let ?room1 = "room\<lparr>players := map_set userId \<lparr>user = userInfo, connectionId = connId, isReady = False\<rparr>
           (players room)\<rparr>"
  let ?rooms1 = "map_set roomId ?room1 rooms"
  have small: "\<not> numGe (count_number (map_size (players room))) (maxPlayers room)"
    using Cons.prems(5) by (simp add: count_number_below)
  have add: "addPlayerToRoom roomId userId userInfo connId rooms = (True, ?rooms1)"
    using Cons.prems(1) small Cons.prems(2) by (rule addPlayerToRoom_admits)
  have new: "\<not> map_has userId (players room)"
    using Cons.prems(4) j by simp
  have keys1: "map_keys (players ?room1) = map_keys (players room) @ [userId]"
    using new by (simp add: map_keys_set)
  have size1: "map_size (players ?room1) = Suc (map_size (players room))"
    using new by (simp add: map_size_set)
  have get1: "getRoom roomId ?rooms1 = Some ?room1"
    by (simp add: getRoom_def map_get_set_if)
  have "fst (addEach roomId joiners ?rooms1) = replicate (length joiners) True \<and>
     (\<exists>room'. getRoom roomId (snd (addEach roomId joiners ?rooms1)) = Some room' \<and>
        map_keys (players room') = map_keys (players ?room1) @ map fst joiners \<and>
        maxPlayers room' = maxPlayers ?room1 \<and> locked room' = locked ?room1)"
  proof (rule Cons.IH [OF get1])
    show "\<not> locked ?room1" using Cons.prems(2) by simp
    show "distinct (map fst joiners)" using Cons.prems(3) by simp
    show "\<forall>j \<in> set joiners. \<not> map_has (fst j) (players ?room1)"
      using Cons.prems(3,4) j by (auto simp: map_has_set)
    show "numLe (count_number (map_size (players ?room1) + length joiners)) (maxPlayers ?room1)"
      using Cons.prems(5) size1 by simp
  qed
  then show ?case
    using add keys1 by (auto simp: j split: prod.splits)
qed

text \<open>Locking\<close>

lemma lockedOrAbsent_set:
  "lockedOrAbsent roomId rooms \<Longrightarrow> (r = roomId \<Longrightarrow> locked room') \<Longrightarrow>
     lockedOrAbsent roomId (map_set r room' rooms)"
  by (simp add: lockedOrAbsent_def getRoom_def map_get_set_if)

lemma lockedOrAbsent_delete:
  "lockedOrAbsent roomId rooms \<Longrightarrow> lockedOrAbsent roomId (AList.delete r rooms)"
  by (simp add: lockedOrAbsent_def getRoom_def map_get_delete_if)

lemma lockedOrAbsent_deleteEach:
  "lockedOrAbsent roomId rooms \<Longrightarrow> lockedOrAbsent roomId (deleteEach ids rooms)"
  by (induction ids arbitrary: rooms) (auto simp: deleteRoom_def map_delete_def lockedOrAbsent_delete)

lemma lockedOrAbsent_get:
  "lockedOrAbsent roomId rooms \<Longrightarrow> map_get roomId rooms = Some room \<Longrightarrow> locked room"
  by (simp add: lockedOrAbsent_def getRoom_def)

lemma delete_map_set: "AList.delete k (map_set k v m) = AList.delete k m"
  by (simp add: map_set_def delete_update_same)

lemma removePlayerFromRoom_keeps_lock:
  assumes "lockedOrAbsent roomId rooms"
  shows "lockedOrAbsent roomId (snd (removePlayerFromRoom r userId rooms))"
proof (cases "map_get r rooms")
  case None
  then show ?thesis using assms by (simp add: removePlayerFromRoom_def)
next
  case (Some room0)
  let ?room = "room0\<lparr>players := AList.delete userId (players room0)\<rparr>"
  have l0: "r = roomId \<Longrightarrow> locked room0"
    using assms Some by (auto intro: lockedOrAbsent_get)
  have 1: "lockedOrAbsent roomId (map_set r ?room rooms)"
    using assms by (rule lockedOrAbsent_set) (simp add: l0)
  have 2: "lockedOrAbsent roomId (map_set r (?room\<lparr>ownerId := k\<rparr>) rooms)" for k
    using assms by (rule lockedOrAbsent_set) (simp add: l0)
  have 3: "lockedOrAbsent roomId (AList.delete r rooms)"
    using assms by (rule lockedOrAbsent_delete)
  show ?thesis
    using Some 1 2 3
    by (auto simp: removePlayerFromRoom_def map_delete_def Let_def deleteRoom_def changeRoomOwner_def
        map_get_set_if map_set_twice delete_map_set split: list.splits)
qed

lemma call_keeps_lock:
  assumes "lockedOrAbsent roomId rooms" and "keepsLock roomId c rooms"
  shows "lockedOrAbsent roomId (snd (call c rooms))"
proof (cases c)
  case (RemovePlayerFromRoom r userId)
  then show ?thesis
    using removePlayerFromRoom_keeps_lock [OF assms(1)] by (simp only: snd_call)
next
  case CleanupEmptyRooms
  then show ?thesis
    using assms(1) by (simp add: cleanupEmptyRooms_def lockedOrAbsent_deleteEach)
qed (use assms in \<open>auto simp: snd_call createRoom_def Let_def deleteRoom_def map_delete_def
       addPlayerToRoom_def setRoomState_def setRoomLocked_def setRoomCycle_def setPlayerReady_def
       changeRoomOwner_def
       split: option.splits
       intro!: lockedOrAbsent_set lockedOrAbsent_delete dest: lockedOrAbsent_get\<close>)

lemma run_keeps_lock:
  "lockedOrAbsent roomId rooms \<Longrightarrow> lockKept roomId cs rooms \<Longrightarrow>
     lockedOrAbsent roomId (run cs rooms)"
  by (induction cs arbitrary: rooms) (auto simp: call_keeps_lock)

lemma setRoomLocked_locks: "lockedOrAbsent roomId (snd (setRoomLocked roomId True rooms))"
  by (simp add: setRoomLocked_def lockedOrAbsent_def getRoom_def map_get_set_if split: option.splits)

lemma lockedOrAbsent_rejects:
  "lockedOrAbsent roomId rooms \<Longrightarrow> addPlayerToRoom roomId userId userInfo connId rooms = (False, rooms)"
  by (rule addPlayerToRoom_rejects) (auto simp: lockedOrAbsent_def split: option.splits)

lemma unlock_admits:
  assumes "getRoom roomId rooms = Some room" and "\<not> numGe (count_number (map_size (players room))) (maxPlayers room)"
  shows "fst (addPlayerToRoom roomId userId userInfo connId (snd (setRoomLocked roomId False rooms)))"
proof -
  have "getRoom roomId (snd (setRoomLocked roomId False rooms)) = Some (room\<lparr>locked := False\<rparr>)"
    using assms(1) by (simp add: setRoomLocked_def getRoom_def map_get_set_if)
  then show ?thesis
    using assms(2) by (simp add: addPlayerToRoom_admits)
qed

lemma addEach_rejected:
  assumes "\<And>userId userInfo connId. addPlayerToRoom roomId userId userInfo connId rooms = (False, rooms)"
  shows "addEach roomId later rooms = (replicate (length later) False, rooms)"
  by (induction later) (auto simp: assms)

text \<open>
  Claim C5 says, among other things, that after \<open>setRoomLocked(roomId, true)\<close> every
  \<open>addPlayerToRoom\<close> on that room returns \<open>false\<close> until \<open>setRoomLocked(roomId, false)\<close>.
  That part fails: when the only player of the locked room \<open>r1\<close> leaves, the room is deleted,
  and \<open>createRoom\<close> under the same identifier then creates an unlocked room, which admits
  player 2 although nothing was unlocked.
\<close>

theorem locked_room_recreated_admits:
  "fst (setRoomLocked ''r1'' True freshRoom)
   \<and> SetRoomLocked ''r1'' False \<notin> set recreation
   \<and> fst (addPlayerToRoom ''r1'' (Finite 2) ''bob'' ''c2''
         (run recreation (snd (setRoomLocked ''r1'' True freshRoom))))"
  by code_simp

text \<open>
  Claim C5, amended. \<open>addPlayerToRoom\<close> returns \<open>false\<close> and leaves the registry as it is
  when the room does not exist, when \<open>players.size >= maxPlayers\<close>, and when it is locked.
  Otherwise it returns \<open>true\<close>, and the room then holds, under \<open>userId\<close>, the given user
  info and connection with \<open>isReady = false\<close> (in the place of the old entry if there was
  one, at the end if not), everything else being as before. Consequently: letting distinct
  new players join an unlocked room until it holds \<open>maxPlayers\<close> succeeds every time, and
  the next \<open>addPlayerToRoom\<close>, and each one after it, returns \<open>false\<close> and changes
  nothing; after \<open>setRoomLocked(roomId, true)\<close> every \<open>addPlayerToRoom\<close> under \<open>roomId\<close>
  returns \<open>false\<close> and changes nothing, whatever calls come in between, until
  \<open>setRoomLocked(roomId, false)\<close> is called or \<open>createRoom\<close> creates a room under \<open>roomId\<close>
  (which it does only once the locked room has been deleted); and
  \<open>setRoomLocked(roomId, false)\<close> restores admission to a room that has space.
\<close>

theorem addPlayerToRoom_admission:
  "(\<forall>roomId userId userInfo connId (rooms :: ('u, 'p) rooms).
      getRoom roomId rooms = None \<or>
      (\<exists>room. getRoom roomId rooms = Some room \<and>
         (numGe (count_number (map_size (players room))) (maxPlayers room) \<or> locked room)) \<longrightarrow>
      addPlayerToRoom roomId userId userInfo connId rooms = (False, rooms)) \<and>
   (\<forall>roomId userId userInfo connId (rooms :: ('u, 'p) rooms) room.
      getRoom roomId rooms = Some room \<and> \<not> numGe (count_number (map_size (players room))) (maxPlayers room) \<and>
      \<not> locked room \<longrightarrow>
      fst (addPlayerToRoom roomId userId userInfo connId rooms) \<and>
      getRoom roomId (snd (addPlayerToRoom roomId userId userInfo connId rooms)) =
        Some (room\<lparr>players :=
          map_set userId \<lparr>user = userInfo, connectionId = connId, isReady = False\<rparr> (players room)\<rparr>) \<and>
      map_get userId
        (map_set userId \<lparr>user = userInfo, connectionId = connId, isReady = False\<rparr> (players room)) =
        Some \<lparr>user = userInfo, connectionId = connId, isReady = False\<rparr> \<and>
      (\<forall>k. k \<noteq> userId \<longrightarrow>
         map_get k
           (map_set userId \<lparr>user = userInfo, connectionId = connId, isReady = False\<rparr> (players room)) =
         map_get k (players room)) \<and>
      map_keys
        (map_set userId \<lparr>user = userInfo, connectionId = connId, isReady = False\<rparr> (players room)) =
        (if map_has userId (players room) then map_keys (players room)
         else map_keys (players room) @ [userId]) \<and>
      (\<forall>i. i \<noteq> roomId \<longrightarrow>
         getRoom i (snd (addPlayerToRoom roomId userId userInfo connId rooms)) = getRoom i rooms) \<and>
      map_keys (snd (addPlayerToRoom roomId userId userInfo connId rooms)) = map_keys rooms) \<and>
   (\<forall>roomId joiners later userId userInfo connId (rooms :: ('u, 'p) rooms) room.
      getRoom roomId rooms = Some room \<and> \<not> locked room \<and> distinct (map fst joiners) \<and>
      (\<forall>j \<in> set joiners. \<not> map_has (fst j) (players room)) \<and>
      maxPlayers room = count_number (map_size (players room) + length joiners) \<longrightarrow>
      fst (addEach roomId joiners rooms) = replicate (length joiners) True \<and>
      (\<exists>room'. getRoom roomId (snd (addEach roomId joiners rooms)) = Some room' \<and>
         count_number (map_size (players room')) = maxPlayers room') \<and>
      addPlayerToRoom roomId userId userInfo connId (snd (addEach roomId joiners rooms)) =
        (False, snd (addEach roomId joiners rooms)) \<and>
      addEach roomId later (snd (addEach roomId joiners rooms)) =
        (replicate (length later) False, snd (addEach roomId joiners rooms))) \<and>
   (\<forall>roomId cs userId userInfo connId (rooms :: ('u, 'p) rooms).
      lockKept roomId cs (snd (setRoomLocked roomId True rooms)) \<longrightarrow>
      addPlayerToRoom roomId userId userInfo connId (run cs (snd (setRoomLocked roomId True rooms))) =
        (False, run cs (snd (setRoomLocked roomId True rooms)))) \<and>
   (\<forall>roomId userId userInfo connId (rooms :: ('u, 'p) rooms) room.
      getRoom roomId rooms = Some room \<and>
      \<not> numGe (count_number (map_size (players room))) (maxPlayers room) \<longrightarrow>
      fst (addPlayerToRoom roomId userId userInfo connId (snd (setRoomLocked roomId False rooms))))"
proof (intro conjI allI impI; (elim conjE)?)
  fix roomId userId userInfo connId and rooms :: "('u, 'p) rooms"
  assume "getRoom roomId rooms = None \<or>
      (\<exists>room. getRoom roomId rooms = Some room \<and>
         (numGe (count_number (map_size (players room))) (maxPlayers room) \<or> locked room))"
  then show "addPlayerToRoom roomId userId userInfo connId rooms = (False, rooms)"
    by (rule addPlayerToRoom_rejects)
next
  fix roomId userId userInfo connId and rooms :: "('u, 'p) rooms" and room
    and joiners later :: "(number \<times> 'u \<times> string) list"
  assume h: "getRoom roomId rooms = Some room" "\<not> locked room" "distinct (map fst joiners)"
    "\<forall>j \<in> set joiners. \<not> map_has (fst j) (players room)"
    "maxPlayers room = count_number (map_size (players room) + length joiners)"
  have le: "numLe (count_number (map_size (players room) + length joiners)) (maxPlayers room)"
    using h(5) by (simp add: numLe_def count_number_def)
  note fill = addEach_fills [OF h(1-4) le]
  show "fst (addEach roomId joiners rooms) = replicate (length joiners) True"
    using fill by simp
  from fill obtain room' where r': "getRoom roomId (snd (addEach roomId joiners rooms)) = Some room'"
    "map_keys (players room') = map_keys (players room) @ map fst joiners"
    "maxPlayers room' = maxPlayers room"
    by blast
  have "length (map_keys (players room')) = length (map_keys (players room) @ map fst joiners)"
    by (simp only: r'(2))
  then have "map_size (players room') = map_size (players room) + length joiners"
    by (simp add: map_keys_def map_size_def)
  then have full: "count_number (map_size (players room')) = maxPlayers room'"
    using r'(3) h(5) by simp
  show "\<exists>room'. getRoom roomId (snd (addEach roomId joiners rooms)) = Some room' \<and>
         count_number (map_size (players room')) = maxPlayers room'"
    using r'(1) full by blast
  have "numGe (count_number (map_size (players room'))) (maxPlayers room')"
    by (simp add: full [symmetric] count_number_def)
  then have rejected: "addPlayerToRoom roomId u info conn (snd (addEach roomId joiners rooms)) =
        (False, snd (addEach roomId joiners rooms))" for u info conn
    using r'(1) by (intro addPlayerToRoom_rejects) simp
  then show "addPlayerToRoom roomId userId userInfo connId (snd (addEach roomId joiners rooms)) =
        (False, snd (addEach roomId joiners rooms))" .
  show "addEach roomId later (snd (addEach roomId joiners rooms)) =
        (replicate (length later) False, snd (addEach roomId joiners rooms))"
    using rejected by (rule addEach_rejected)
next
  fix roomId userId userInfo connId and rooms :: "('u, 'p) rooms" and cs :: "('u, 'p) op list"
  assume "lockKept roomId cs (snd (setRoomLocked roomId True rooms))"
  then have "lockedOrAbsent roomId (run cs (snd (setRoomLocked roomId True rooms)))"
    by (intro run_keeps_lock setRoomLocked_locks)
  then show "addPlayerToRoom roomId userId userInfo connId (run cs (snd (setRoomLocked roomId True rooms))) =
        (False, run cs (snd (setRoomLocked roomId True rooms)))"
    by (rule lockedOrAbsent_rejects)
next
  fix roomId userId userInfo connId and rooms :: "('u, 'p) rooms" and room
  assume "getRoom roomId rooms = Some room" "\<not> numGe (count_number (map_size (players room))) (maxPlayers room)"
  then show "fst (addPlayerToRoom roomId userId userInfo connId (snd (setRoomLocked roomId False rooms)))"
    by (rule unlock_admits)
qed (simp_all add: addPlayerToRoom_effect)

theorem addPlayerToRoom_admission_witness:
  "(\<exists>room. getRoom ''r1'' fullRoom = Some room \<and>
      numGe (count_number (map_size (players room))) (maxPlayers room))
   \<and> addPlayerToRoom ''r1'' (Finite 3) ''cy'' ''c3'' fullRoom = (False, fullRoom)
   \<and> (\<exists>room. getRoom ''r1'' freshRoom = Some room \<and> map_keys (players room) = [Finite 1] \<and>
         maxPlayers room = Finite 2 \<and> \<not> locked room)
   \<and> fst (addPlayerToRoom ''r1'' (Finite 2) ''bob'' ''c2'' freshRoom)
   \<and> (\<exists>room. getRoom ''r1'' (snd (addPlayerToRoom ''r1'' (Finite 2) ''bob'' ''c2'' freshRoom)) = Some room \<and>
         map_keys (players room) = [Finite 1, Finite 2] \<and>
         map_get (Finite 2) (players room) =
           Some \<lparr>user = ''bob'', connectionId = ''c2'', isReady = False\<rparr>)
   \<and> fst (addEach ''r1'' [(Finite 2, ''bob'', ''c2'')] freshRoom) = [True]
   \<and> addPlayerToRoom ''r1'' (Finite 3) ''cy'' ''c3''
         (snd (addEach ''r1'' [(Finite 2, ''bob'', ''c2'')] freshRoom)) =
        (False, snd (addEach ''r1'' [(Finite 2, ''bob'', ''c2'')] freshRoom))
   \<and> fst (addEach ''r1'' [(Finite 3, ''cy'', ''c3''), (Finite 4, ''di'', ''c4'')]
          (snd (addEach ''r1'' [(Finite 2, ''bob'', ''c2'')] freshRoom))) = [False, False]
   \<and> lockKept ''r1''
         [SetRoomCycle ''r1'' True,
          CreateRoom 2500 \<lparr>opt_id = ''r1'', opt_name = ''again'', opt_ownerId = Finite 5,
            opt_ownerInfo = ''eve'', opt_connectionId = ''c5'', opt_maxPlayers = None,
            opt_password = None\<rparr>,
          SetRoomLocked ''r2'' False]
         (snd (setRoomLocked ''r1'' True freshRoom))
   \<and> addPlayerToRoom ''r1'' (Finite 2) ''bob'' ''c2''
         (run [SetRoomCycle ''r1'' True,
               CreateRoom 2500 \<lparr>opt_id = ''r1'', opt_name = ''again'', opt_ownerId = Finite 5,
                 opt_ownerInfo = ''eve'', opt_connectionId = ''c5'', opt_maxPlayers = None,
                 opt_password = None\<rparr>,
               SetRoomLocked ''r2'' False]
            (snd (setRoomLocked ''r1'' True freshRoom))) =
        (False, run [SetRoomCycle ''r1'' True,
               CreateRoom 2500 \<lparr>opt_id = ''r1'', opt_name = ''again'', opt_ownerId = Finite 5,
                 opt_ownerInfo = ''eve'', opt_connectionId = ''c5'', opt_maxPlayers = None,
                 opt_password = None\<rparr>,
               SetRoomLocked ''r2'' False]
            (snd (setRoomLocked ''r1'' True freshRoom)))
   \<and> fst (addPlayerToRoom ''r1'' (Finite 2) ''bob'' ''c2''
         (snd (setRoomLocked ''r1'' False (snd (setRoomLocked ''r1'' True freshRoom)))))"
proof -
  let ?owner = "\<lparr>user = ''ann'', connectionId = ''c1'', isReady = False\<rparr>"
  let ?bob = "\<lparr>user = ''bob'', connectionId = ''c2'', isReady = False\<rparr>"
  let ?fresh = "\<lparr>room_id = ''r1'', name = ''lobby'', ownerId = Finite 1, players = [(Finite 1, ?owner)],
           maxPlayers = Finite 2, password = None, state = RoomState ''SelectChart'' (None :: unit option),
           locked = False, cycle = False, live = True, createdAt = 1000\<rparr>"
  let ?full = "?fresh\<lparr>players := [(Finite 1, ?owner), (Finite 2, ?bob)]\<rparr>"
  let ?cs = "[SetRoomCycle ''r1'' True,
          CreateRoom 2500 \<lparr>opt_id = ''r1'', opt_name = ''again'', opt_ownerId = Finite 5,
            opt_ownerInfo = ''eve'', opt_connectionId = ''c5'', opt_maxPlayers = None,
            opt_password = None\<rparr>,
          SetRoomLocked ''r2'' False] :: (string, unit) op list"
  let ?locked = "snd (setRoomLocked ''r1'' True freshRoom)"
  note spec = addPlayerToRoom_admission [where 'u = string and 'p = unit]
  have fresh: "getRoom ''r1'' freshRoom = Some ?fresh"
    by code_simp
  have full: "getRoom ''r1'' fullRoom = Some ?full"
    by code_simp
  have locked: "getRoom ''r1'' ?locked = Some (?fresh\<lparr>locked := True\<rparr>)"
    by code_simp
  have isfull: "numGe (count_number (map_size (players ?full))) (maxPlayers ?full)"
    by (simp add: map_size_def count_number_def)
  have space: "\<not> numGe (count_number (map_size (players ?fresh))) (maxPlayers ?fresh)"
    by (simp add: map_size_def count_number_def)
  have a: "addPlayerToRoom ''r1'' (Finite 3) ''cy'' ''c3'' fullRoom = (False, fullRoom)"
    by (rule spec [THEN conjunct1, rule_format]) (use full isfull in simp)
  note b = spec [THEN conjunct2, THEN conjunct1, rule_format,
      of "''r1''" freshRoom ?fresh "Finite 2" "''bob''" "''c2''"]
  have b1: "fst (addPlayerToRoom ''r1'' (Finite 2) ''bob'' ''c2'' freshRoom)"
    by (rule b [THEN conjunct1]) (use fresh space in simp)
  have b2: "getRoom ''r1'' (snd (addPlayerToRoom ''r1'' (Finite 2) ''bob'' ''c2'' freshRoom)) = Some ?full"
    using b [THEN conjunct2, THEN conjunct1] fresh space by (simp add: map_set_def)
  have c: "fst (addEach ''r1'' [(Finite 2, ''bob'', ''c2'')] freshRoom) = [True] \<and>
      addPlayerToRoom ''r1'' (Finite 3) ''cy'' ''c3''
          (snd (addEach ''r1'' [(Finite 2, ''bob'', ''c2'')] freshRoom)) =
        (False, snd (addEach ''r1'' [(Finite 2, ''bob'', ''c2'')] freshRoom)) \<and>
      fst (addEach ''r1'' [(Finite 3, ''cy'', ''c3''), (Finite 4, ''di'', ''c4'')]
          (snd (addEach ''r1'' [(Finite 2, ''bob'', ''c2'')] freshRoom))) = [False, False]"
    using spec [THEN conjunct2, THEN conjunct2, THEN conjunct1, rule_format,
        of "''r1''" freshRoom ?fresh "[(Finite 2, ''bob'', ''c2'')]" "Finite 3" "''cy''" "''c3''"
           "[(Finite 3, ''cy'', ''c3''), (Finite 4, ''di'', ''c4'')]"] fresh
    by (simp add: map_size_def map_has_def count_number_def del: addEach.simps)
  have keeps: "lockKept ''r1'' ?cs ?locked"
    by code_simp
  have d: "addPlayerToRoom ''r1'' (Finite 2) ''bob'' ''c2'' (run ?cs ?locked) = (False, run ?cs ?locked)"
    by (rule spec [THEN conjunct2, THEN conjunct2, THEN conjunct2, THEN conjunct1, rule_format, OF keeps])
  have e: "fst (addPlayerToRoom ''r1'' (Finite 2) ''bob'' ''c2'' (snd (setRoomLocked ''r1'' False ?locked)))"
    by (rule spec [THEN conjunct2, THEN conjunct2, THEN conjunct2, THEN conjunct2, rule_format,
          of "''r1''" ?locked "?fresh\<lparr>locked := True\<rparr>"])
      (use locked in \<open>simp add: map_size_def count_number_def\<close>)
  show ?thesis
    using a b1 b2 c d e keeps fresh full isfull
    by (intro conjI exI [of _ ?full] exI [of _ ?fresh])
      (simp_all add: map_keys_def map_get_def del: run.simps addEach.simps lockKept.simps)
qed

section \<open>Ownership\<close>

lemma delete_leaves_some:
  assumes "map_ok m" and "map_has k m" and "2 \<le> map_size m"
  shows "AList.delete k m \<noteq> []"
proof -
  have "Suc (length (AList.delete k m)) = length m"
    using assms(1,2) by (intro length_delete_present) (simp_all add: map_ok_def map_has_def)
  then show ?thesis using assms(3) by (auto simp: map_size_def)
qed

lemma removePlayerFromRoom_owner:
  assumes found: "getRoom roomId rooms = Some room"
    and owner: "strictEq (ownerId room) userId"
    and keys: "map_keys (snd (map_delete userId (players room))) = newOwner # rest"
    and member: "map_has userId (players room)"
  shows "removePlayerFromRoom roomId userId rooms =
     (True, map_set roomId (room\<lparr>players := snd (map_delete userId (players room)),
                                 ownerId := newOwner\<rparr>) rooms)"
proof -
  have "map_has newOwner (AList.delete userId (players room))"
    using keys by (simp add: map_delete_def map_keys_def map_has_first)
  then show ?thesis
    using found owner keys member
    by (auto simp: removePlayerFromRoom_def getRoom_def map_delete_def map_size_def map_keys_def
        changeRoomOwner_def map_get_set_if map_set_twice)
qed

text \<open>
  With no \<open>NaN\<close> among the members, the owner's departure hands the room to the first
  remaining key, and \<open>isRoomOwner\<close> holds for that member alone.
\<close>

lemma owner_succession_without_NaN:
  assumes "getRoom roomId rooms = Some room"
    and "ownerId room = userId"
    and "map_has userId (players room)"
    and "map_ok (players room)"
    and "2 \<le> map_size (players room)"
    and "\<not> map_has NaN (players room)"
  shows "\<exists>newOwner rest.
     map_keys (snd (map_delete userId (players room))) = newOwner # rest \<and>
     fst (removePlayerFromRoom roomId userId rooms) \<and>
     getRoom roomId (snd (removePlayerFromRoom roomId userId rooms)) =
       Some (room\<lparr>players := snd (map_delete userId (players room)), ownerId := newOwner\<rparr>) \<and>
     \<not> isRoomOwner roomId userId (snd (removePlayerFromRoom roomId userId rooms)) \<and>
     isRoomOwner roomId newOwner (snd (removePlayerFromRoom roomId userId rooms)) \<and>
     (\<exists>!u. map_has u (snd (map_delete userId (players room))) \<and>
        isRoomOwner roomId u (snd (removePlayerFromRoom roomId userId rooms)))"
proof -
  let ?players = "snd (map_delete userId (players room))"
  have "userId \<noteq> NaN"
    using assms(3,6) by auto
  then have strict: "strictEq (ownerId room) userId"
    using assms(2) by (simp add: strictEq_def)
  have "AList.delete userId (players room) \<noteq> []"
    using assms(4,3,5) by (rule delete_leaves_some)
  then obtain newOwner rest where keys: "map_keys ?players = newOwner # rest"
    by (cases "AList.delete userId (players room)") (auto simp: map_delete_def map_keys_def)
  let ?rooms = "snd (removePlayerFromRoom roomId userId rooms)"
  note eq = removePlayerFromRoom_owner [OF assms(1) strict keys assms(3)]
  have member: "map_has newOwner ?players"
    using keys by (simp add: map_keys_def map_has_first)
  then have other: "newOwner \<noteq> userId" and old: "map_has newOwner (players room)"
    by (auto simp: map_delete_def map_has_delete)
  have number: "newOwner \<noteq> NaN"
    using old assms(6) by auto
  have get: "getRoom roomId ?rooms = Some (room\<lparr>players := ?players, ownerId := newOwner\<rparr>)"
    by (simp add: eq getRoom_def map_get_set_if)
  have own: "isRoomOwner roomId u ?rooms \<longleftrightarrow> u = newOwner" for u
    using get number by (auto simp: isRoomOwner_def getRoom_def strictEq_def)
  have "\<exists>!u. map_has u ?players \<and> isRoomOwner roomId u ?rooms"
    using member own by auto
  then show ?thesis
    using keys get own other by (auto simp: eq)
qed

text \<open>
  Claim C6 says that when the owner of a room with at least two members is removed, the call
  returns \<open>true\<close>, the room stays, its owner becomes the first key of the membership map
  after the removal, and \<open>isRoomOwner\<close> is then \<open>true\<close> for exactly one remaining member.
  The code does not do so when \<open>NaN\<close> is involved, since it compares owners with \<open>===\<close>.
  In \<open>nanRoom\<close> the owner is \<open>NaN\<close> and the members are \<open>NaN\<close>, 2 and 3: removing \<open>NaN\<close>
  returns \<open>true\<close> and leaves members 2 and 3, but the owner is still \<open>NaN\<close> and \<open>isRoomOwner\<close>
  is \<open>false\<close> for both. In \<open>nanMemberRoom\<close> the owner 1 leaves members \<open>NaN\<close> and 3 behind:
  the first of them, \<open>NaN\<close>, becomes the owner, and \<open>isRoomOwner\<close> is \<open>false\<close> for both.
\<close>

theorem owner_NaN_has_no_successor:
  "map (\<lambda>(i, room). (i, ownerId room, map_keys (players room))) nanRoom
     = [(''r1'', NaN, [NaN, Finite 2, Finite 3])]
   \<and> fst (removePlayerFromRoom ''r1'' NaN nanRoom)
   \<and> map (\<lambda>(i, room). (i, ownerId room, map_keys (players room)))
         (snd (removePlayerFromRoom ''r1'' NaN nanRoom))
       = [(''r1'', NaN, [Finite 2, Finite 3])]
   \<and> \<not> isRoomOwner ''r1'' (Finite 2) (snd (removePlayerFromRoom ''r1'' NaN nanRoom))
   \<and> \<not> isRoomOwner ''r1'' (Finite 3) (snd (removePlayerFromRoom ''r1'' NaN nanRoom))
   \<and> map (\<lambda>(i, room). (i, ownerId room, map_keys (players room))) nanMemberRoom
       = [(''r1'', Finite 1, [Finite 1, NaN, Finite 3])]
   \<and> fst (removePlayerFromRoom ''r1'' (Finite 1) nanMemberRoom)
   \<and> map (\<lambda>(i, room). (i, ownerId room, map_keys (players room)))
         (snd (removePlayerFromRoom ''r1'' (Finite 1) nanMemberRoom))
       = [(''r1'', NaN, [NaN, Finite 3])]
   \<and> \<not> isRoomOwner ''r1'' NaN (snd (removePlayerFromRoom ''r1'' (Finite 1) nanMemberRoom))
   \<and> \<not> isRoomOwner ''r1'' (Finite 3) (snd (removePlayerFromRoom ''r1'' (Finite 1) nanMemberRoom))"
  by code_simp

text \<open>
  Claim C7. \<open>changeRoomOwner\<close> returns \<open>false\<close> and leaves the registry as it is, every
  room's \<open>ownerId\<close> included, when the room is absent or \<open>newOwnerId\<close> is not one of its
  members. When the room exists and \<open>newOwnerId\<close> is a member, it returns \<open>true\<close> and the
  room's \<open>ownerId\<close> is \<open>newOwnerId\<close>, nothing else having changed.
\<close>

theorem changeRoomOwner_members_only:
  "(\<forall>roomId newOwnerId (rooms :: ('u, 'p) rooms).
      getRoom roomId rooms = None \<or>
      (\<exists>room. getRoom roomId rooms = Some room \<and> \<not> map_has newOwnerId (players room)) \<longrightarrow>
      changeRoomOwner roomId newOwnerId rooms = (False, rooms)) \<and>
   (\<forall>roomId newOwnerId (rooms :: ('u, 'p) rooms) room.
      getRoom roomId rooms = Some room \<and> map_has newOwnerId (players room) \<longrightarrow>
      fst (changeRoomOwner roomId newOwnerId rooms) \<and>
      getRoom roomId (snd (changeRoomOwner roomId newOwnerId rooms)) =
        Some (room\<lparr>ownerId := newOwnerId\<rparr>) \<and>
      (\<forall>i. i \<noteq> roomId \<longrightarrow>
         getRoom i (snd (changeRoomOwner roomId newOwnerId rooms)) = getRoom i rooms) \<and>
      map_keys (snd (changeRoomOwner roomId newOwnerId rooms)) = map_keys rooms)"
proof (intro conjI allI impI; (elim conjE)?)
  fix roomId newOwnerId and rooms :: "('u, 'p) rooms"
  assume "getRoom roomId rooms = None \<or>
      (\<exists>room. getRoom roomId rooms = Some room \<and> \<not> map_has newOwnerId (players room))"
  then show "changeRoomOwner roomId newOwnerId rooms = (False, rooms)"
    by (auto simp: changeRoomOwner_def getRoom_def)
next
  fix roomId newOwnerId and rooms :: "('u, 'p) rooms" and room
  assume h: "getRoom roomId rooms = Some room" "map_has newOwnerId (players room)"
  then have eq: "changeRoomOwner roomId newOwnerId rooms =
      (True, map_set roomId (room\<lparr>ownerId := newOwnerId\<rparr>) rooms)"
    by (simp add: changeRoomOwner_def getRoom_def)
  have present: "map_has roomId rooms"
    using h(1) by (simp add: getRoom_def map_get_has)
  show "fst (changeRoomOwner roomId newOwnerId rooms)"
    by (simp add: eq)
  show "getRoom roomId (snd (changeRoomOwner roomId newOwnerId rooms)) =
        Some (room\<lparr>ownerId := newOwnerId\<rparr>)"
    by (simp add: eq getRoom_def map_get_set_if)
  show "\<And>i. i \<noteq> roomId \<Longrightarrow>
         getRoom i (snd (changeRoomOwner roomId newOwnerId rooms)) = getRoom i rooms"
    by (simp add: eq getRoom_def map_get_set_if)
  show "map_keys (snd (changeRoomOwner roomId newOwnerId rooms)) = map_keys rooms"
    using present by (simp add: eq map_keys_set)
qed

theorem changeRoomOwner_members_only_witness:
  "(\<exists>room. getRoom ''r1'' fullRoom = Some room \<and> ownerId room = Finite 1 \<and> map_keys (players room) = [Finite 1, Finite 2])
   \<and> changeRoomOwner ''r1'' (Finite 7) fullRoom = (False, fullRoom)
   \<and> getRoom ''r9'' fullRoom = None
   \<and> changeRoomOwner ''r9'' (Finite 1) fullRoom = (False, fullRoom)
   \<and> fst (changeRoomOwner ''r1'' (Finite 2) fullRoom)
   \<and> (\<exists>room. getRoom ''r1'' (snd (changeRoomOwner ''r1'' (Finite 2) fullRoom)) = Some room \<and>
         ownerId room = Finite 2 \<and> map_keys (players room) = [Finite 1, Finite 2])"
proof -
  let ?owner = "\<lparr>user = ''ann'', connectionId = ''c1'', isReady = False\<rparr>"
  let ?bob = "\<lparr>user = ''bob'', connectionId = ''c2'', isReady = False\<rparr>"
  let ?full = "\<lparr>room_id = ''r1'', name = ''lobby'', ownerId = Finite 1, players = [(Finite 1, ?owner), (Finite 2, ?bob)],
           maxPlayers = Finite 2, password = None, state = RoomState ''SelectChart'' (None :: unit option),
           locked = False, cycle = False, live = True, createdAt = 1000\<rparr>"
  note spec = changeRoomOwner_members_only [where 'u = string and 'p = unit]
  have full: "getRoom ''r1'' fullRoom = Some ?full"
    by code_simp
  have absent: "getRoom ''r9'' fullRoom = None"
    by code_simp
  have a: "changeRoomOwner ''r1'' (Finite 7) fullRoom = (False, fullRoom)"
    by (rule spec [THEN conjunct1, rule_format]) (use full in \<open>simp add: map_has_def\<close>)
  have b: "changeRoomOwner ''r9'' (Finite 1) fullRoom = (False, fullRoom)"
    by (rule spec [THEN conjunct1, rule_format]) (use absent in simp)
  note c = spec [THEN conjunct2, rule_format, of "''r1''" fullRoom ?full "Finite 2"]
  have c1: "fst (changeRoomOwner ''r1'' (Finite 2) fullRoom)"
    by (rule c [THEN conjunct1]) (use full in \<open>simp add: map_has_def\<close>)
  have c2: "getRoom ''r1'' (snd (changeRoomOwner ''r1'' (Finite 2) fullRoom)) = Some (?full\<lparr>ownerId := Finite 2\<rparr>)"
    by (rule c [THEN conjunct2, THEN conjunct1]) (use full in \<open>simp add: map_has_def\<close>)
  show ?thesis
    using full a absent b c1 c2
    by (intro conjI exI [of _ ?full] exI [of _ "?full\<lparr>ownerId := Finite 2\<rparr>"]) (simp_all add: map_keys_def)
qed

text \<open>
  Claim C10. Let \<open>userId\<close> already be a member of a room that is full
  (\<open>players.size >= maxPlayers\<close>) or locked. Then \<open>addPlayerToRoom\<close> for that player returns
  \<open>false\<close>, the registry is as it was, and the member's entry (user info, connection,
  ready flag) is the one found before: the capacity and lock checks come before the
  overwrite, although the overwrite would not have added an entry.
\<close>

theorem readding_member_rejected:
  assumes "getRoom roomId rooms = Some room"
    and "map_get userId (players room) = Some player"
    and "numGe (count_number (map_size (players room))) (maxPlayers room) \<or> locked room"
  shows "addPlayerToRoom roomId userId userInfo connId rooms = (False, rooms) \<and>
     (\<exists>room'. getRoom roomId (snd (addPlayerToRoom roomId userId userInfo connId rooms)) = Some room' \<and>
        map_get userId (players room') = Some player) \<and>
     map_size (map_set userId \<lparr>user = userInfo, connectionId = connId, isReady = False\<rparr> (players room))
       = map_size (players room)"
proof -
  have "addPlayerToRoom roomId userId userInfo connId rooms = (False, rooms)"
    using assms(1,3) by (intro addPlayerToRoom_rejects) auto
  moreover have "map_has userId (players room)"
    using assms(2) by (rule map_get_has)
  ultimately show ?thesis
    using assms(1,2) by (simp add: map_size_set)
qed

theorem readding_member_rejected_witness:
  "(\<exists>room. getRoom ''r1'' fullRoom = Some room \<and>
      map_get (Finite 2) (players room) = Some \<lparr>user = ''bob'', connectionId = ''c2'', isReady = False\<rparr> \<and>
      numGe (count_number (map_size (players room))) (maxPlayers room))
   \<and> addPlayerToRoom ''r1'' (Finite 2) ''bobby'' ''c22'' fullRoom = (False, fullRoom)
   \<and> (\<exists>room. getRoom ''r1'' (snd (addPlayerToRoom ''r1'' (Finite 2) ''bobby'' ''c22'' fullRoom)) = Some room \<and>
      map_get (Finite 2) (players room) = Some \<lparr>user = ''bob'', connectionId = ''c2'', isReady = False\<rparr>)"
proof -
  let ?owner = "\<lparr>user = ''ann'', connectionId = ''c1'', isReady = False\<rparr>"
  let ?bob = "\<lparr>user = ''bob'', connectionId = ''c2'', isReady = False\<rparr>"
  let ?full = "\<lparr>room_id = ''r1'', name = ''lobby'', ownerId = Finite 1, players = [(Finite 1, ?owner), (Finite 2, ?bob)],
           maxPlayers = Finite 2, password = None, state = RoomState ''SelectChart'' (None :: unit option),
           locked = False, cycle = False, live = True, createdAt = 1000\<rparr>"
  have full: "getRoom ''r1'' fullRoom = Some ?full"
    by code_simp
  have member: "map_get (Finite 2) (players ?full) = Some ?bob"
    by (simp add: map_get_def)
  have isfull: "numGe (count_number (map_size (players ?full))) (maxPlayers ?full) \<or> locked ?full"
    by (simp add: map_size_def count_number_def)
  note r = readding_member_rejected [OF full member isfull, of "''bobby''" "''c22''"]
  have r1: "addPlayerToRoom ''r1'' (Finite 2) ''bobby'' ''c22'' fullRoom = (False, fullRoom)"
    by (rule r [THEN conjunct1])
  show ?thesis
    using full member r1
    by (intro conjI exI [of _ ?full]) (simp_all add: map_size_def count_number_def)
qed

section \<open>The sweep and the search\<close>

lemma collectEmpty_none: "everyRoom nonEmpty rooms \<Longrightarrow> collectEmpty rooms = []"
  by (induction rooms) (auto simp: everyRoom_iff nonEmpty_def)

lemma collectEmpty_keys: "set (collectEmpty rooms) \<subseteq> fst ` set rooms"
  by (induction rooms) (auto split: if_splits)

lemma deleteEach_Cons_other:
  "fst x \<notin> set ids \<Longrightarrow> deleteEach ids (x # rest) = x # deleteEach ids rest"
  by (induction ids arbitrary: rest) (auto simp: deleteRoom_def map_delete_def)

lemma deleteEach_collectEmpty:
  "distinct (map fst rooms) \<Longrightarrow>
     deleteEach (collectEmpty rooms) rooms = filter (\<lambda>(i, room). map_size (players room) \<noteq> 0) rooms"
proof (induction rooms)
  case Nil
  then show ?case by simp
next
  case (Cons x rooms)
  obtain i room where x: "x = (i, room)" by (cases x) auto
  have fresh: "i \<notin> fst ` set rooms" using Cons.prems x by simp
  have IH: "deleteEach (collectEmpty rooms) rooms = filter (\<lambda>(i, room). map_size (players room) \<noteq> 0) rooms"
    using Cons by simp
  show ?case
  proof (cases "map_size (players room) = 0")
    case True
    then show ?thesis
      using fresh IH by (simp add: x deleteRoom_def map_delete_def)
  next
    case False
    have "i \<notin> set (collectEmpty rooms)"
      using fresh collectEmpty_keys [of rooms] by blast
    then show ?thesis
      using False IH by (simp add: x deleteEach_Cons_other)
  qed
qed

text \<open>
  Claim C8. On a registry in which every room has a player, \<open>cleanupEmptyRooms\<close> changes
  nothing: the registry, and so \<open>count\<close> and every room with its fields and members, is what
  it was. In general (the keys of the registry being distinct, as in any \<open>Map\<close>) it keeps
  exactly the rooms that have a player, in their order, and deletes the others; running it
  twice is running it once.
\<close>

theorem cleanupEmptyRooms_sweeps:
  "(\<forall>rooms :: ('u, 'p) rooms.
      everyRoom nonEmpty rooms \<longrightarrow>
      cleanupEmptyRooms rooms = rooms \<and> count (cleanupEmptyRooms rooms) = count rooms) \<and>
   (\<forall>rooms :: ('u, 'p) rooms.
      map_ok rooms \<longrightarrow>
      cleanupEmptyRooms rooms = filter (\<lambda>(i, room). map_size (players room) \<noteq> 0) rooms \<and>
      cleanupEmptyRooms (cleanupEmptyRooms rooms) = cleanupEmptyRooms rooms)"
proof (intro conjI allI impI)
  fix rooms :: "('u, 'p) rooms"
  assume "everyRoom nonEmpty rooms"
  then show "cleanupEmptyRooms rooms = rooms"
    by (simp add: cleanupEmptyRooms_def collectEmpty_none)
  then show "count (cleanupEmptyRooms rooms) = count rooms"
    by simp
next
  fix rooms :: "('u, 'p) rooms"
  assume ok: "map_ok rooms"
  then show swept: "cleanupEmptyRooms rooms = filter (\<lambda>(i, room). map_size (players room) \<noteq> 0) rooms"
    by (simp add: cleanupEmptyRooms_def map_ok_def deleteEach_collectEmpty)
  have "map_ok (cleanupEmptyRooms rooms)"
    using ok by (simp add: cleanupEmptyRooms_def map_ok_deleteEach)
  then have "cleanupEmptyRooms (cleanupEmptyRooms rooms) =
      filter (\<lambda>(i, room). map_size (players room) \<noteq> 0) (cleanupEmptyRooms rooms)"
    by (simp add: cleanupEmptyRooms_def map_ok_def deleteEach_collectEmpty)
  then show "cleanupEmptyRooms (cleanupEmptyRooms rooms) = cleanupEmptyRooms rooms"
    by (simp add: swept)
qed

theorem cleanupEmptyRooms_sweeps_witness:
  "everyRoom nonEmpty fullRoom
   \<and> cleanupEmptyRooms fullRoom = fullRoom
   \<and> map_ok strayRegistry
   \<and> map (\<lambda>(i, room). (i, map_keys (players room))) strayRegistry = [(''r0'', []), (''r1'', [Finite 1, Finite 2])]
   \<and> cleanupEmptyRooms strayRegistry = fullRoom"
proof -
  note spec = cleanupEmptyRooms_sweeps [where 'u = string and 'p = unit]
  have full: "everyRoom nonEmpty fullRoom"
    by code_simp
  have ok: "map_ok strayRegistry"
    by code_simp
  have a: "cleanupEmptyRooms fullRoom = fullRoom"
    by (rule spec [THEN conjunct1, rule_format, OF full, THEN conjunct1])
  have "filter (\<lambda>(i, room). map_size (players room) \<noteq> 0) strayRegistry = fullRoom"
    by code_simp
  then have b: "cleanupEmptyRooms strayRegistry = fullRoom"
    using spec [THEN conjunct2, rule_format, OF ok, THEN conjunct1] by simp
  have c: "map (\<lambda>(i, room). (i, map_keys (players room))) strayRegistry = [(''r0'', []), (''r1'', [Finite 1, Finite 2])]"
    by code_simp
  show ?thesis
    using full a ok b c by (intro conjI)
qed

lemma getRoomByUserId_find:
  "getRoomByUserId userId rooms = find (\<lambda>room. map_has userId (players room)) (listRooms rooms)"
proof -
  have "firstRoomWith userId rs = find (\<lambda>room. map_has userId (players room)) rs" for rs :: "('a, 'b) Room list"
    by (induction rs) auto
  then show ?thesis
    by (simp add: getRoomByUserId_def listRooms_def)
qed

text \<open>
  Claim C9. \<open>getRoomByUserId\<close> returns the first room, in the iteration order of the
  registry, whose \<open>players\<close> has \<open>userId\<close> as a key: the room it returns holds the player
  and no room before it does. It returns absent exactly when no room of the registry holds
  the player. The call leaves the registry as it was.
\<close>

theorem getRoomByUserId_first_match:
  "(getRoomByUserId userId rooms = None \<longleftrightarrow>
      (\<forall>room \<in> set (listRooms rooms). \<not> map_has userId (players room))) \<and>
   (\<forall>room. getRoomByUserId userId rooms = Some room \<longleftrightarrow>
      (\<exists>n < length (listRooms rooms).
         listRooms rooms ! n = room \<and> map_has userId (players room) \<and>
         (\<forall>m < n. \<not> map_has userId (players (listRooms rooms ! m))))) \<and>
   call (GetRoomByUserId userId) rooms = (ReturnedLookup (getRoomByUserId userId rooms), rooms)"
proof (intro conjI allI)
  show "getRoomByUserId userId rooms = None \<longleftrightarrow>
      (\<forall>room \<in> set (listRooms rooms). \<not> map_has userId (players room))"
    by (auto simp: getRoomByUserId_find find_None_iff)
  show "getRoomByUserId userId rooms = Some room \<longleftrightarrow>
      (\<exists>n < length (listRooms rooms).
         listRooms rooms ! n = room \<and> map_has userId (players room) \<and>
         (\<forall>m < n. \<not> map_has userId (players (listRooms rooms ! m))))" for room
    unfolding getRoomByUserId_find find_Some_iff by auto
  show "call (GetRoomByUserId userId) rooms = (ReturnedLookup (getRoomByUserId userId rooms), rooms)"
    by simp
qed

theorem getRoomByUserId_first_match_witness:
  "map (\<lambda>room. (room_id room, map_keys (players room))) (listRooms twoRooms)
     = [(''r1'', [Finite 1, Finite 2]), (''r2'', [Finite 2])]
   \<and> list_all (\<lambda>room. \<not> map_has (Finite 7) (players room)) (listRooms twoRooms)
   \<and> getRoomByUserId (Finite 7) twoRooms = None
   \<and> (\<exists>room. getRoomByUserId (Finite 2) twoRooms = Some room \<and> room_id room = ''r1'' \<and>
         listRooms twoRooms ! 0 = room \<and> map_has (Finite 2) (players room))
   \<and> snd (call (GetRoomByUserId (Finite 2)) twoRooms) = twoRooms"
proof -
  let ?owner = "\<lparr>user = ''ann'', connectionId = ''c1'', isReady = False\<rparr>"
  let ?bob = "\<lparr>user = ''bob'', connectionId = ''c2'', isReady = False\<rparr>"
  let ?r1 = "\<lparr>room_id = ''r1'', name = ''lobby'', ownerId = Finite 1, players = [(Finite 1, ?owner), (Finite 2, ?bob)],
           maxPlayers = Finite 2, password = None, state = RoomState ''SelectChart'' (None :: unit option),
           locked = False, cycle = False, live = True, createdAt = 1000\<rparr>"
  have rooms: "map (\<lambda>room. (room_id room, map_keys (players room))) (listRooms twoRooms)
     = [(''r1'', [Finite 1, Finite 2]), (''r2'', [Finite 2])]"
    by code_simp
  have nowhere: "list_all (\<lambda>room. \<not> map_has (Finite 7) (players room)) (listRooms twoRooms)"
    by code_simp
  have first: "listRooms twoRooms ! 0 = ?r1"
    by code_simp
  have len: "0 < length (listRooms twoRooms)"
    by code_simp
  have a: "getRoomByUserId (Finite 7) twoRooms = None"
    using getRoomByUserId_first_match [of "Finite 7" twoRooms, THEN conjunct1] nowhere
    by (simp only: list_all_iff)
  have "\<exists>n < length (listRooms twoRooms).
         listRooms twoRooms ! n = ?r1 \<and> map_has (Finite 2) (players ?r1) \<and>
         (\<forall>m < n. \<not> map_has (Finite 2) (players (listRooms twoRooms ! m)))"
    using first len by (intro exI [of _ 0]) (simp add: map_has_def)
  then have b: "getRoomByUserId (Finite 2) twoRooms = Some ?r1"
    by (rule getRoomByUserId_first_match [of "Finite 2" twoRooms, THEN conjunct2, THEN conjunct1, rule_format,
          THEN iffD2])
  have c: "snd (call (GetRoomByUserId (Finite 2)) twoRooms) = twoRooms"
    by (simp only: getRoomByUserId_first_match [of "Finite 2" twoRooms, THEN conjunct2, THEN conjunct2] snd_conv)
  show ?thesis
    using rooms nowhere a b first c
    by (intro conjI exI [of _ ?r1]) (simp_all add: map_has_def del: call.simps)
qed


end
